theory Spec2Isabelle
  imports Main "HOL-Library.Sublist"
begin

section \<open>Go standard-library functions used by the service\<close>

text \<open>
  Go strings are byte sequences; they are modelled as \<^typ>\<open>string\<close> (a list of
  8-bit characters). The loops of the library functions are written as recursion over the
  index they scan, shifted by one so that the index is a natural number: the argument
  \<open>Suc i\<close> below stands for the Go index \<open>i\<close>, and \<open>0\<close> for the loop exit \<open>i < 0\<close>.
\<close>

subsection \<open>path/filepath (Unix: the separator is the slash)\<close>

text \<open>\<^verbatim>\<open>for len(path) > 0 && os.IsPathSeparator(path[len(path)-1]) { path = path[0 : len(path)-1] }\<close>:
  the length that is left.\<close>

primrec stripTrailingSeparators :: "string \<Rightarrow> nat \<Rightarrow> nat" where
  "stripTrailingSeparators path 0 = 0"
| "stripTrailingSeparators path (Suc i) =
     (if path ! i = CHR ''/'' then stripTrailingSeparators path i else Suc i)"

text \<open>\<^verbatim>\<open>i := len(path) - 1; for i >= 0 && !os.IsPathSeparator(path[i]) { i-- }\<close>:
  the index after the last separator, \<open>0\<close> when there is none.\<close>

primrec lastElementStart :: "string \<Rightarrow> nat \<Rightarrow> nat" where
  "lastElementStart path 0 = 0"
| "lastElementStart path (Suc i) =
     (if path ! i = CHR ''/'' then Suc i else lastElementStart path i)"

definition filepath_Base :: "string \<Rightarrow> string" where
  "filepath_Base path =
     (if path = [] then ''.''
      else let p1 = take (stripTrailingSeparators path (length path)) path;
               p2 = drop (lastElementStart p1 (length p1)) p1
           in if p2 = [] then ''/'' else p2)"

text \<open>\<^verbatim>\<open>for i := len(path) - 1; i >= 0 && !os.IsPathSeparator(path[i]); i-- {
    if path[i] == '.' { return path[i:] } }; return ""\<close>\<close>

primrec extScan :: "string \<Rightarrow> nat \<Rightarrow> string" where
  "extScan path 0 = []"
| "extScan path (Suc i) =
     (if path ! i = CHR ''/'' then []
      else if path ! i = CHR ''.'' then drop i path
      else extScan path i)"

definition filepath_Ext :: "string \<Rightarrow> string" where
  "filepath_Ext path = extScan path (length path)"

subsection \<open>strings\<close>

text \<open>\<^verbatim>\<open>strings.Split(s, sep)\<close> for a separator of one byte: the pieces between the
  occurrences of the separator, one more than there are occurrences. \<open>acc\<close> holds the
  current piece, reversed.\<close>

fun splitAcc :: "char \<Rightarrow> string \<Rightarrow> string \<Rightarrow> string list" where
  "splitAcc sep acc [] = [rev acc]"
| "splitAcc sep acc (c # cs) =
     (if c = sep then rev acc # splitAcc sep [] cs else splitAcc sep (c # acc) cs)"

definition strings_Split :: "string \<Rightarrow> char \<Rightarrow> string list" where
  "strings_Split s sep = splitAcc sep [] s"

fun strings_Join :: "string list \<Rightarrow> string \<Rightarrow> string" where
  "strings_Join [] sep = []"
| "strings_Join [e] sep = e"
| "strings_Join (e # e' # es) sep = e @ sep @ strings_Join (e' # es) sep"

text \<open>\<^verbatim>\<open>strings.TrimRight(s, cutset)\<close>: the trailing bytes that are in the cutset are
  removed.\<close>

primrec trimRightLen :: "string \<Rightarrow> string \<Rightarrow> nat \<Rightarrow> nat" where
  "trimRightLen s cutset 0 = 0"
| "trimRightLen s cutset (Suc i) =
     (if s ! i \<in> set cutset then trimRightLen s cutset i else Suc i)"

definition strings_TrimRight :: "string \<Rightarrow> string \<Rightarrow> string" where
  "strings_TrimRight s cutset = take (trimRightLen s cutset (length s)) s"

subsection \<open>net/url: QueryEscape\<close>

text \<open>\<^verbatim>\<open>shouldEscape(c, encodeQueryComponent)\<close>: letters, digits and \<open>- _ . ~\<close> are kept,
  every other byte is escaped.\<close>

definition shouldEscape :: "char \<Rightarrow> bool" where
  "shouldEscape c =
     (let n = (of_char c :: nat) in
      \<not> ((97 \<le> n \<and> n \<le> 122) \<or> (65 \<le> n \<and> n \<le> 90) \<or> (48 \<le> n \<and> n \<le> 57)
         \<or> c = CHR ''-'' \<or> c = CHR ''_'' \<or> c = CHR ''.'' \<or> c = CHR ''~''))"

definition upperhex :: string where
  "upperhex = ''0123456789ABCDEF''"

fun url_QueryEscape :: "string \<Rightarrow> string" where
  "url_QueryEscape [] = []"
| "url_QueryEscape (c # cs) =
     (if shouldEscape c then
        (if c = CHR '' '' then CHR ''+'' # url_QueryEscape cs
         else CHR ''%'' # upperhex ! ((of_char c :: nat) div 16)
                       # upperhex ! ((of_char c :: nat) mod 16) # url_QueryEscape cs)
      else c # url_QueryEscape cs)"

section \<open>The collaborators\<close>

text \<open>
  The browser engine, the file system, object storage and the process environment are
  outside the repository. Every call the service makes to them is recorded as an
  \<open>event\<close>, and what the call returns is read from an \<open>env\<close>: an error is
  \<open>Some message\<close> (or \<open>Inl message\<close> where the call also returns a value).
\<close>

record context_options =
  StorageStatePath :: "string option"
  UserAgent :: "string option"
  Viewport :: "(nat \<times> nat) option"
  Locale :: "string option"
  TimezoneId :: "string option"
  ExtraHttpHeaders :: "(string \<times> string) list"

datatype browser_context = BrowserContext (context_id: nat) (context_opts: context_options)

datatype event =
    Lock | Unlock | RLock | RUnlock
  | PlaywrightRun | ChromiumLaunch | Stat string | NewContext context_options
  | NewPage nat | PageClose | AddInitScript | Goto string | Sleep nat
  | Click string | Fill string string | IsVisible string | Check string
  | PageURL | PageTitle | ExpectDownload string | SaveAs string
  | StorageState nat string
  | MkdirAll string | CreateTemp | Remove string | Open string | FileClose string
  | LoadDefaultConfig | PutObject string string | UploaderUpload string string

text \<open>
  \<open>url.Parse\<close> and \<open>filepath.Join\<close> of the Go library are not modelled and are fields
  of the environment too. \<open>url_Parse u\<close> is the \<open>Path\<close> field of the parsed URL, or
  \<open>None\<close> when \<open>url.Parse\<close> returns an error together with a nil URL. \<open>os_Getenv\<close>
  gives the empty string for an unset variable. A selector is looked at most once by
  each run, so visibility is a function of the selector; \<open>page.IsVisible\<close> returns
  \<open>false\<close> together with its error, and the source drops the error. \<open>page.URL()\<close> is
  read up to three times by a login, and each reading has its own field.
\<close>

record env =
  url_Parse :: "string \<Rightarrow> string option"
  filepath_Join :: "string \<Rightarrow> string \<Rightarrow> string"
  os_Getenv :: "string \<Rightarrow> string"
  os_UserHomeDir :: "string option"
  os_Stat_ok :: "string \<Rightarrow> bool"
  os_MkdirAll :: "string \<Rightarrow> string option"
  os_CreateTemp :: "string + string"
  os_Open :: "string \<Rightarrow> string option"
  time_Now_date :: string
  playwright_Run :: "string option"
  chromium_Launch :: "string option"
  browser_NewContext :: "context_options \<Rightarrow> string option"
  context_NewPage :: "string option"
  context_StorageState :: "string \<Rightarrow> string option"
  page_AddInitScript :: "string option"
  page_Goto :: "string \<Rightarrow> string option"
  page_Click :: "string \<Rightarrow> string option"
  page_Fill :: "string \<Rightarrow> string \<Rightarrow> string option"
  page_IsVisible :: "string \<Rightarrow> bool"
  page_Check :: "string \<Rightarrow> string option"
  page_URL_logged :: string
  page_URL_first :: string
  page_URL_second :: string
  page_Title :: "string + string"
  page_ExpectDownload :: "string + string"
  download_SaveAs :: "string \<Rightarrow> string option"
  config_LoadDefaultConfig :: "string option"
  s3_PutObject :: "string \<Rightarrow> string \<Rightarrow> string option"
  uploader_Upload :: "string \<Rightarrow> string \<Rightarrow> string + string"

definition getEnv :: "env \<Rightarrow> string \<Rightarrow> string \<Rightarrow> string" where
  "getEnv env key defaultValue =
     (if os_Getenv env key \<noteq> [] then os_Getenv env key else defaultValue)"

definition homeDirOrDot :: "env \<Rightarrow> string" where
  "homeDirOrDot env = (case os_UserHomeDir env of None \<Rightarrow> ''.'' | Some homeDir \<Rightarrow> homeDir)"

definition getStorageStatePath :: "env \<Rightarrow> string" where
  "getStorageStatePath env = filepath_Join env (homeDirOrDot env) ''freepik_storage_state.json''"

section \<open>The object key and the public location\<close>

text \<open>
  \<open>generateR2Path\<close> returns the pair (public URL, object key). The error of \<open>url.Parse\<close>
  is dropped by the source, which then reads \<open>parsed.Path\<close>: on a parse error that is a
  nil-pointer dereference, a run-time panic, modelled as \<open>None\<close>.
\<close>

definition stripID :: "string \<Rightarrow> string" where
  "stripID nameWithoutExt =
     (let parts = strings_Split nameWithoutExt (CHR ''_'') in
      if length parts > 1 then strings_Join (take (length parts - 1) parts) ''_''
      else nameWithoutExt)"

definition generateR2Path :: "env \<Rightarrow> string \<Rightarrow> string \<Rightarrow> (string \<times> string) option" where
  "generateR2Path env originalURL email =
     (case url_Parse env originalURL of
        None \<Rightarrow> None
      | Some path \<Rightarrow>
          let baseName = filepath_Base path;
              ext = filepath_Ext baseName;
              nameWithoutExt = stripID (take (length baseName - length ext) baseName);
              finalFilename = nameWithoutExt @ ''.jpg'';
              encodedEmail = url_QueryEscape email;
              r2Base = getEnv env ''R2_URL'' ''https://storage.stokbro.net'';
              fullURL = strings_TrimRight r2Base ''/'' @ ''/'' @ encodedEmail @ ''/'' @ finalFilename;
              objectKey = encodedEmail @ ''/'' @ finalFilename
          in Some (fullURL, objectKey))"

section \<open>The process state and how a function runs on it\<close>

text \<open>
  The global variables of the service (\<open>browserContext\<close>, \<open>isLoggedIn\<close>,
  \<open>currentUserEmail\<close>; the mutex \<open>contextMux\<close> shows as the events \<open>Lock\<close>,
  \<open>Unlock\<close>, \<open>RLock\<close>, \<open>RUnlock\<close>), the contexts the browser holds, the
  \<open>processDownload\<close> tasks started with \<open>go\<close> (the arguments of each), and the
  calls made so far.
\<close>

record world =
  browserContext :: "browser_context option"
  isLoggedIn :: bool
  currentUserEmail :: string
  contexts :: "browser_context list"
  spawned :: "string list list"
  trace :: "event list"

text \<open>The state at process start: Go's zero values.\<close>

definition initial :: world where
  "initial = \<lparr>browserContext = None, isLoggedIn = False, currentUserEmail = [],
               contexts = [], spawned = [], trace = []\<rparr>"

text \<open>
  A function of the service takes the state and gives back its result and the new state.
  \<open>Err\<close> is a returned Go \<open>error\<close> (in \<open>main\<close>: the message of \<open>log.Fatalf\<close>, which
  ends the process), \<open>Panic\<close> a run-time panic (a nil dereference).
\<close>

datatype 'a result = Panic | Err string | Ok 'a

type_synonym 'a action = "world \<Rightarrow> 'a result \<times> world"

definition ret :: "'a \<Rightarrow> 'a action" where
  "ret x = (\<lambda>w. (Ok x, w))"

definition throw :: "string \<Rightarrow> 'a action" where
  "throw e = (\<lambda>w. (Err e, w))"

definition panic :: "'a action" where
  "panic = (\<lambda>w. (Panic, w))"

definition andThen :: "'a action \<Rightarrow> ('a \<Rightarrow> 'b action) \<Rightarrow> 'b action" where
  "andThen m f = (\<lambda>w. case m w of
       (Panic, w') \<Rightarrow> (Panic, w')
     | (Err e, w') \<Rightarrow> (Err e, w')
     | (Ok x, w') \<Rightarrow> f x w')"

fun seqs :: "unit action list \<Rightarrow> unit action" where
  "seqs [] = ret ()"
| "seqs (m # ms) = andThen m (\<lambda>_. seqs ms)"

definition emit :: "event \<Rightarrow> unit action" where
  "emit ev = (\<lambda>w. (Ok (), w\<lparr>trace := trace w @ [ev]\<rparr>))"

text \<open>\<^verbatim>\<open>defer f()\<close>: the call happens when the function is left, however it is left.\<close>

definition atExit :: "event \<Rightarrow> 'a action \<Rightarrow> 'a action" where
  "atExit ev m = (\<lambda>w. case m w of (r, w') \<Rightarrow> (r, w'\<lparr>trace := trace w' @ [ev]\<rparr>))"

text \<open>\<^verbatim>\<open>if err := f(); err != nil { return fmt.Errorf(msg + "%v", err) }\<close>\<close>

definition call :: "event \<Rightarrow> string option \<Rightarrow> string \<Rightarrow> unit action" where
  "call ev outcome msg =
     andThen (emit ev) (\<lambda>_. case outcome of None \<Rightarrow> ret () | Some err \<Rightarrow> throw (msg @ err))"

text \<open>The same for a call that also returns a value.\<close>

definition callv :: "event \<Rightarrow> string + 'a \<Rightarrow> string \<Rightarrow> 'a action" where
  "callv ev outcome msg =
     andThen (emit ev) (\<lambda>_. case outcome of Inr v \<Rightarrow> ret v | Inl err \<Rightarrow> throw (msg @ err))"

text \<open>\<^verbatim>\<open>v, err := f()\<close> at a caller that looks at the error itself.\<close>

definition attempt :: "'a action \<Rightarrow> (string + 'a) action" where
  "attempt m = (\<lambda>w. case m w of
       (Panic, w') \<Rightarrow> (Panic, w')
     | (Err e, w') \<Rightarrow> (Ok (Inl e), w')
     | (Ok x, w') \<Rightarrow> (Ok (Inr x), w'))"

definition getContext :: "browser_context option action" where
  "getContext = (\<lambda>w. (Ok (browserContext w), w))"

definition setLoggedIn :: "bool \<Rightarrow> unit action" where
  "setLoggedIn b = (\<lambda>w. (Ok (), w\<lparr>isLoggedIn := b\<rparr>))"

definition setCurrentUserEmail :: "string \<Rightarrow> unit action" where
  "setCurrentUserEmail e = (\<lambda>w. (Ok (), w\<lparr>currentUserEmail := e\<rparr>))"

text \<open>\<^verbatim>\<open>c.NewPage()\<close> on a context variable: a nil context is a panic.\<close>

definition newPage :: "env \<Rightarrow> browser_context option \<Rightarrow> string \<Rightarrow> unit action" where
  "newPage env c msg =
     (case c of None \<Rightarrow> panic
      | Some ctx \<Rightarrow> call (NewPage (context_id ctx)) (context_NewPage env) msg)"

text \<open>\<^verbatim>\<open>visible, _ := page.IsVisible(selector)\<close>\<close>

definition isVisible :: "env \<Rightarrow> string \<Rightarrow> bool action" where
  "isVisible env selector = andThen (emit (IsVisible selector)) (\<lambda>_. ret (page_IsVisible env selector))"

text \<open>\<^verbatim>\<open>for _, selector := range selectors { if visible, _ := page.IsVisible(selector); visible { ... } }\<close>
  where the body leaves the loop: whether some selector was visible.\<close>

fun anyVisible :: "env \<Rightarrow> string list \<Rightarrow> bool action" where
  "anyVisible env [] = ret False"
| "anyVisible env (selector # rest) =
     andThen (isVisible env selector) (\<lambda>visible. if visible then ret True else anyVisible env rest)"

text \<open>\<^verbatim>\<open>browserContext, err = browser.NewContext(options)\<close>: the global is assigned
  whatever the call returns, nil on an error.\<close>

definition newContext :: "env \<Rightarrow> context_options \<Rightarrow> unit action" where
  "newContext env opts =
     andThen (emit (NewContext opts)) (\<lambda>_ w.
       case browser_NewContext env opts of
         Some err \<Rightarrow> (Err err, w\<lparr>browserContext := None\<rparr>)
       | None \<Rightarrow> (let c = BrowserContext (length (contexts w)) opts
                  in (Ok (), w\<lparr>browserContext := Some c, contexts := contexts w @ [c]\<rparr>)))"

section \<open>Startup\<close>

definition storageStateOptions :: "string \<Rightarrow> context_options" where
  "storageStateOptions storageStateFile =
     \<lparr>StorageStatePath = Some storageStateFile, UserAgent = None, Viewport = None,
      Locale = None, TimezoneId = None, ExtraHttpHeaders = []\<rparr>"

definition freshOptions :: context_options where
  "freshOptions =
     \<lparr>StorageStatePath = None,
      UserAgent = Some ''Mozilla/5.0 (Windows NT 10.0; Win64; x64) AppleWebKit/537.36 (KHTML, like Gecko) Chrome/120.0.0.0 Safari/537.36'',
      Viewport = Some (1920, 1080),
      Locale = Some ''en-US'',
      TimezoneId = Some ''America/New_York'',
      ExtraHttpHeaders = [(''Accept-Language'', ''en-US,en;q=0.9'')]\<rparr>"

definition createNewContext :: "env \<Rightarrow> unit action" where
  "createNewContext env =
     andThen (attempt (newContext env freshOptions)) (\<lambda>r.
       case r of
         Inl err \<Rightarrow> throw (''Failed to create browser context: '' @ err)
       | Inr _ \<Rightarrow> setLoggedIn False)"

text \<open>\<open>main\<close> up to the registration of the handlers; what follows is
  \<open>http.ListenAndServe\<close>, which serves the requests.\<close>

definition main :: "env \<Rightarrow> unit action" where
  "main env =
     seqs [
       call PlaywrightRun (playwright_Run env) ''Failed to start Playwright: '',
       call ChromiumLaunch (chromium_Launch env) ''Failed to launch browser: '',
       (let storageStateFile = getStorageStatePath env in
        andThen (emit (Stat storageStateFile)) (\<lambda>_.
          if os_Stat_ok env storageStateFile then
            andThen (attempt (newContext env (storageStateOptions storageStateFile))) (\<lambda>r.
              case r of
                Inl err \<Rightarrow> createNewContext env
              | Inr _ \<Rightarrow> setLoggedIn True)
          else createNewContext env))]"

section \<open>The login sequence\<close>

definition signInSelector :: string where
  \<open>signInSelector = ''button:has-text("Sign In"), a:has-text("Sign In"), [data-testid="login-button"]''\<close>

definition continueWithEmailSelector :: string where
  \<open>continueWithEmailSelector = ''button:has-text("Continue with email"), button:has-text("Log in with email")''\<close>

definition emailSelector :: string where
  \<open>emailSelector = ''input[type="email"], input[name="email"], #email''\<close>

definition passwordSelector :: string where
  \<open>passwordSelector = ''input[type="password"], input[name="password"], #password''\<close>

definition stayLoggedInSelector :: string where
  \<open>stayLoggedInSelector = ''input[type="checkbox"][name="remember"], input[type="checkbox"]#remember, .remember-me input''\<close>

definition loginButtonSelector :: string where
  \<open>loginButtonSelector = ''button[type="submit"]:has-text("Log in"), button:has-text("Login"), input[type="submit"][value="Log in"]''\<close>

definition successSelectors :: "string list" where
  \<open>successSelectors = [''[data-testid="user-avatar"]'', ''img[alt*="avatar"]'', ''.user-avatar'',
     ''button:has-text("Log out")'']\<close>

definition errorSelectors :: "string list" where
  \<open>errorSelectors = [''.error-message'', ''[role="alert"]'', ''text=Invalid'', ''text=incorrect'',
     ''text=error'']\<close>

text \<open>\<^verbatim>\<open>page.URL() == "https://www.freepik.com/login" || page.URL() == "https://www.freepik.com/sign-in"\<close>:
  the second reading happens only when the first comparison fails.\<close>

definition stillOnLoginPage :: "env \<Rightarrow> bool action" where
  "stillOnLoginPage env =
     andThen (emit PageURL) (\<lambda>_.
       if page_URL_first env = ''https://www.freepik.com/login'' then ret True
       else andThen (emit PageURL) (\<lambda>_.
         ret (page_URL_second env = ''https://www.freepik.com/sign-in'')))"

text \<open>Step 7 of \<open>performLogin\<close>: the classification of the outcome.\<close>

definition classifyLogin :: "env \<Rightarrow> unit action" where
  "classifyLogin env =
     andThen (anyVisible env successSelectors) (\<lambda>loginSuccess.
       if \<not> loginSuccess then
         andThen (stillOnLoginPage env) (\<lambda>still.
           if still then throw ''login failed - still on login page''
           else andThen (anyVisible env errorSelectors) (\<lambda>errorShown.
             if errorShown then throw ''login failed - error message detected'' else ret ()))
       else ret ())"

text \<open>\<^verbatim>\<open>browserContext.StorageState(storageStateFile)\<close> on the global context.\<close>

definition saveStorageState :: "env \<Rightarrow> unit action" where
  "saveStorageState env =
     andThen getContext (\<lambda>c.
       case c of None \<Rightarrow> panic
       | Some ctx \<Rightarrow>
           call (StorageState (context_id ctx) (getStorageStatePath env))
             (context_StorageState env (getStorageStatePath env)) ''failed to save storage state: '')"

definition performLogin :: "env \<Rightarrow> string \<Rightarrow> string \<Rightarrow> unit action" where
  "performLogin env email password =
     andThen (emit Lock) (\<lambda>_. atExit Unlock (
     andThen getContext (\<lambda>c.
     andThen (newPage env c ''failed to create page: '') (\<lambda>_. atExit PageClose (
     seqs [
       call AddInitScript (page_AddInitScript env) ''failed to inject stealth scripts: '',
       call (Goto ''https://www.freepik.com'') (page_Goto env ''https://www.freepik.com'')
         ''failed to navigate to freepik: '',
       emit (Sleep 2),
       call (Click signInSelector) (page_Click env signInSelector)
         ''failed to click sign in button: '',
       emit (Sleep 3),
       call (Click continueWithEmailSelector) (page_Click env continueWithEmailSelector)
         ''failed to click continue with email button: '',
       emit (Sleep 2),
       call (Fill emailSelector email) (page_Fill env emailSelector email)
         ''failed to fill email: '',
       emit (Sleep 1),
       call (Fill passwordSelector password) (page_Fill env passwordSelector password)
         ''failed to fill password: '',
       emit (Sleep 1),
       andThen (isVisible env stayLoggedInSelector) (\<lambda>visible.
         if visible then emit (Check stayLoggedInSelector) else ret ()),
       emit (Sleep 1),
       call (Click loginButtonSelector) (page_Click env loginButtonSelector)
         ''failed to click login button: '',
       emit (Sleep 5),
       emit PageURL,
       classifyLogin env,
       saveStorageState env,
       setLoggedIn True])))))"

section \<open>The HTTP handlers\<close>

text \<open>
  A request is its method and the outcome of decoding its JSON body into the request
  struct (\<open>None\<close> when \<open>Decode\<close> returns an error; a field the body leaves out is the
  empty string). A response is the status code and the body; \<open>jsonResponse\<close> writes no
  status code, which is status 200.
\<close>

record LoginRequest =
  login_Email :: string
  login_Password :: string

record DownloadRequest =
  download_URL :: string
  download_Email :: string

record 'a request =
  httpMethod :: string
  decoded :: "'a option"

record LoginResponse =
  login_Success :: bool
  login_Message :: string
  login_Error :: string

record DownloadResponse =
  Success :: bool
  Message :: string
  File :: string
  Error :: string

datatype body =
    PlainText string
  | LoginJSON LoginResponse
  | DownloadJSON DownloadResponse
  | StatusJSON bool string

record response =
  statusCode :: nat
  content :: body

definition http_Error :: "string \<Rightarrow> nat \<Rightarrow> response" where
  "http_Error message code = \<lparr>statusCode = code, content = PlainText (message @ [CHR 0x0A])\<rparr>"

definition jsonResponse :: "body \<Rightarrow> response" where
  "jsonResponse b = \<lparr>statusCode = 200, content = b\<rparr>"

definition errorResponse :: "string \<Rightarrow> nat \<Rightarrow> response" where
  "errorResponse message code =
     \<lparr>statusCode = code,
      content = DownloadJSON \<lparr>Success = False, Message = [], File = [], Error = message\<rparr>\<rparr>"

definition loginHandler :: "env \<Rightarrow> LoginRequest request \<Rightarrow> response action" where
  "loginHandler env r =
     (if httpMethod r \<noteq> ''POST'' then ret (http_Error ''Method not allowed'' 405)
      else case decoded r of
        None \<Rightarrow> ret (jsonResponse (LoginJSON
                 \<lparr>login_Success = False, login_Message = [], login_Error = ''Invalid JSON payload''\<rparr>))
      | Some req \<Rightarrow>
          (let email = (if login_Email req = [] then ''mymymy@gmail.com'' else login_Email req) in
           andThen (emit Lock) (\<lambda>_.
           andThen (setCurrentUserEmail email) (\<lambda>_.
           andThen (emit Unlock) (\<lambda>_.
           (let password = (if login_Password req = [] then ''mypassword'' else login_Password req) in
            andThen (attempt (performLogin env email password)) (\<lambda>res.
              case res of
                Inl err \<Rightarrow> ret (jsonResponse (LoginJSON
                   \<lparr>login_Success = False, login_Message = [],
                    login_Error = ''Login failed: '' @ err\<rparr>))
              | Inr _ \<Rightarrow> ret (jsonResponse (LoginJSON
                   \<lparr>login_Success = True, login_Message = ''Login successful'',
                    login_Error = []\<rparr>)))))))))"

text \<open>\<^verbatim>\<open>contextMux.RLock(); loggedIn := isLoggedIn; email := currentUserEmail; contextMux.RUnlock()\<close>\<close>

definition readSession :: "(bool \<times> string) action" where
  "readSession =
     andThen (emit RLock) (\<lambda>_ w.
       andThen (emit RUnlock) (\<lambda>_. ret (isLoggedIn w, currentUserEmail w)) w)"

text \<open>\<^verbatim>\<open>go processDownload(args...)\<close>\<close>

definition spawn :: "string list \<Rightarrow> unit action" where
  "spawn args = (\<lambda>w. (Ok (), w\<lparr>spawned := spawned w @ [args]\<rparr>))"

definition downloadHandler :: "env \<Rightarrow> DownloadRequest request \<Rightarrow> response action" where
  "downloadHandler env r =
     (if httpMethod r \<noteq> ''POST'' then ret (http_Error ''Method not allowed'' 405)
      else case decoded r of
        None \<Rightarrow> ret (errorResponse ''Invalid JSON payload'' 400)
      | Some req \<Rightarrow>
          if download_URL req = [] then ret (errorResponse ''URL is required'' 400)
          else if download_Email req = [] then
            ret (errorResponse ''Email is required for file storage'' 400)
          else
            andThen readSession (\<lambda>(loggedIn, email).
              if \<not> loggedIn then ret (errorResponse ''Not logged in. Please login first.'' 401)
              else case generateR2Path env (download_URL req) email of
                None \<Rightarrow> panic
              | Some (publicURL, r2ObjectKey) \<Rightarrow>
                  andThen (spawn [download_URL req, r2ObjectKey]) (\<lambda>_.
                    ret (jsonResponse (DownloadJSON
                      \<lparr>Success = True, Message = ''Download started'', File = publicURL,
                       Error = []\<rparr>)))))"

definition statusHandler :: "string \<Rightarrow> response action" where
  "statusHandler meth =
     (if meth \<noteq> ''GET'' then ret (http_Error ''Method not allowed'' 405)
      else andThen (emit RLock) (\<lambda>_. atExit RUnlock (\<lambda>w.
        (Ok (jsonResponse (StatusJSON (isLoggedIn w) ''ready'')), w))))"

section \<open>The download pipeline\<close>

definition downloadButtonSelector :: string where
  \<open>downloadButtonSelector = ''button:has-text("Download")''\<close>

text \<open>\<^verbatim>\<open>contextMux.RLock(); currentContext := browserContext; contextMux.RUnlock()\<close>\<close>

definition currentContext :: "browser_context option action" where
  "currentContext =
     andThen (emit RLock) (\<lambda>_.
     andThen getContext (\<lambda>c.
     andThen (emit RUnlock) (\<lambda>_. ret c)))"

text \<open>The title check of \<open>runDownload\<close>.\<close>

definition checkNotBlocked :: "env \<Rightarrow> unit action" where
  "checkNotBlocked env =
     andThen (callv PageTitle (page_Title env) ''failed to get page title: '') (\<lambda>title.
       if title = ''Access Denied'' \<or> title = ''Just a moment...''
       then throw ''page blocked by anti-bot protection'' else ret ())"

definition checkDownloadButton :: "env \<Rightarrow> unit action" where
  "checkDownloadButton env =
     andThen (isVisible env downloadButtonSelector) (\<lambda>visible.
       if \<not> visible then throw ''download button not found'' else ret ())"

text \<open>\<open>runDownload\<close>: the path of the saved file.\<close>

definition runDownload :: "env \<Rightarrow> string \<Rightarrow> string action" where
  "runDownload env targetURL =
     andThen currentContext (\<lambda>c.
     andThen (newPage env c ''failed to create new page: '') (\<lambda>_. atExit PageClose (
     andThen (call AddInitScript (page_AddInitScript env) ''failed to inject stealth scripts: '') (\<lambda>_.
     (let downloadPath = filepath_Join env (homeDirOrDot env) ''freepik_downloads'' in
      andThen (call (MkdirAll downloadPath) (os_MkdirAll env downloadPath)
                 ''failed to create download directory: '') (\<lambda>_.
      andThen (call (Goto targetURL) (page_Goto env targetURL) ''failed to navigate to page: '') (\<lambda>_.
      andThen (emit (Sleep 3)) (\<lambda>_.
      andThen (checkNotBlocked env) (\<lambda>_.
      andThen (checkDownloadButton env) (\<lambda>_.
      andThen (callv (ExpectDownload downloadButtonSelector) (page_ExpectDownload env)
                 ''failed to click download button: '') (\<lambda>filename.
      (let saveFileTo = filepath_Join env downloadPath filename in
       andThen (call (SaveAs saveFileTo) (download_SaveAs env saveFileTo) ''failed to save file: '') (\<lambda>_.
       ret saveFileTo)))))))))))))"

definition uploadToR2 :: "env \<Rightarrow> string \<Rightarrow> string \<Rightarrow> unit action" where
  "uploadToR2 env localPath objectKey =
     (let bucketName = getEnv env ''R2_BUCKET_NAME'' [] in
      andThen (call LoadDefaultConfig (config_LoadDefaultConfig env) []) (\<lambda>_.
      andThen (call (Open localPath) (os_Open env localPath) []) (\<lambda>_. atExit (FileClose localPath) (
      call (PutObject bucketName objectKey) (s3_PutObject env bucketName objectKey) []))))"

text \<open>\<open>processDownload\<close> runs as a task of its own and returns nothing. The upload is
  given \<open>targetURL\<close> as the local path, as the source has it.\<close>

definition processDownload :: "env \<Rightarrow> string \<Rightarrow> string \<Rightarrow> unit action" where
  "processDownload env targetURL r2Key =
     andThen (attempt (runDownload env targetURL)) (\<lambda>res.
       case res of
         Inl err \<Rightarrow> ret ()
       | Inr localFilePath \<Rightarrow>
           andThen (attempt (uploadToR2 env targetURL r2Key)) (\<lambda>up.
             case up of
               Inl err \<Rightarrow> ret ()
             | Inr _ \<Rightarrow> emit (Remove localFilePath)))"

section \<open>The variant that stages the download in a temporary file\<close>

text \<open>
  The second source file of the repository holds the same service with a different
  download path: the request has no email, the download is saved to a temporary file,
  streamed to object storage under a dated key, and the temporary file is removed by a
  deferred call. Its \<open>performLogin\<close>, \<open>createNewContext\<close> and \<open>statusHandler\<close>
  are those above (the context variable is called \<open>browserCtx\<close>); its \<open>main\<close> sets
  up the storage client first and then goes on as the one above; its login handler stores
  no email. The functions that differ carry the suffix \<open>_tmp\<close> here.
\<close>

record DownloadRequest_tmp =
  download_tmp_URL :: string

definition downloadHandler_tmp :: "DownloadRequest_tmp request \<Rightarrow> response action" where
  "downloadHandler_tmp r =
     (if httpMethod r \<noteq> ''POST'' then ret (http_Error ''Method not allowed'' 405)
      else case decoded r of
        None \<Rightarrow> ret (errorResponse ''Invalid JSON payload'' 400)
      | Some req \<Rightarrow>
          if download_tmp_URL req = [] then ret (errorResponse ''URL is required'' 400)
          else
            andThen readSession (\<lambda>(loggedIn, _).
              if \<not> loggedIn then ret (errorResponse ''Not logged in. Please login first.'' 401)
              else andThen (spawn [download_tmp_URL req]) (\<lambda>_.
                ret (jsonResponse (DownloadJSON
                  \<lparr>Success = True, Message = ''Download started in background'', File = [],
                   Error = []\<rparr>)))))"

text \<open>\<open>uploadToR2\<close> of this variant: the location the uploader reports.\<close>

definition uploadToR2_tmp :: "env \<Rightarrow> string \<Rightarrow> string action" where
  "uploadToR2_tmp env filename =
     (let bucketName = getEnv env ''R2_BUCKET_NAME'' ''freepik-downloads'';
          key = time_Now_date env @ ''/'' @ filename
      in callv (UploaderUpload bucketName key) (uploader_Upload env bucketName key)
           ''failed to upload to R2: '')"

definition runDownload_tmp :: "env \<Rightarrow> string \<Rightarrow> unit action" where
  "runDownload_tmp env targetURL =
     andThen currentContext (\<lambda>c.
     andThen (newPage env c ''failed to create new page: '') (\<lambda>_. atExit PageClose (
     andThen (call AddInitScript (page_AddInitScript env) ''failed to inject stealth scripts: '') (\<lambda>_.
     andThen (call (Goto targetURL) (page_Goto env targetURL) ''failed to navigate to page: '') (\<lambda>_.
     andThen (emit (Sleep 3)) (\<lambda>_.
     andThen (checkNotBlocked env) (\<lambda>_.
     andThen (checkDownloadButton env) (\<lambda>_.
     andThen (callv (ExpectDownload downloadButtonSelector) (page_ExpectDownload env)
                ''failed to click download button: '') (\<lambda>filename.
     andThen (callv CreateTemp (os_CreateTemp env) ''failed to create temp file: '') (\<lambda>tmpPath.
     andThen (emit (FileClose tmpPath)) (\<lambda>_. atExit (Remove tmpPath) (
     andThen (call (SaveAs tmpPath) (download_SaveAs env tmpPath) ''failed to save download: '') (\<lambda>_.
     andThen (call (Open tmpPath) (os_Open env tmpPath) ''failed to open temp file: '') (\<lambda>_.
       atExit (FileClose tmpPath) (
     andThen (attempt (uploadToR2_tmp env filename)) (\<lambda>up.
       case up of
         Inl err \<Rightarrow> throw (''failed to upload to R2: '' @ err)
       | Inr r2URL \<Rightarrow> ret ()))))))))))))))))"

definition processDownload_tmp :: "env \<Rightarrow> string \<Rightarrow> unit action" where
  "processDownload_tmp env targetURL =
     andThen (attempt (runDownload_tmp env targetURL)) (\<lambda>_. ret ())"

section \<open>Notions used to state the properties\<close>

text \<open>The calls a function makes when it is run in a state.\<close>

definition newEvents :: "'a action \<Rightarrow> world \<Rightarrow> event list" where
  "newEvents m w = drop (length (trace w)) (trace (snd (m w)))"


definition afterLast :: "char \<Rightarrow> string \<Rightarrow> string" where
  "afterLast c s = rev (takeWhile (\<lambda>x. x \<noteq> c) (rev s))"




text \<open>Every step of \<open>performLogin\<close> before the classification succeeds.\<close>

definition loginStepsSucceed :: "env \<Rightarrow> string \<Rightarrow> string \<Rightarrow> bool" where
  "loginStepsSucceed env email password =
     (context_NewPage env = None \<and> page_AddInitScript env = None
      \<and> page_Goto env ''https://www.freepik.com'' = None
      \<and> page_Click env signInSelector = None
      \<and> page_Click env continueWithEmailSelector = None
      \<and> page_Fill env emailSelector email = None
      \<and> page_Fill env passwordSelector password = None
      \<and> page_Click env loginButtonSelector = None)"

text \<open>The ambiguous outcome: no success indicator is visible, the URL is not that of a
  login page at either reading, and no error indicator is visible.\<close>

definition ambiguousOutcome :: "env \<Rightarrow> bool" where
  "ambiguousOutcome env =
     (list_all (\<lambda>selector. \<not> page_IsVisible env selector) successSelectors
      \<and> page_URL_first env \<noteq> ''https://www.freepik.com/login''
      \<and> page_URL_second env \<noteq> ''https://www.freepik.com/sign-in''
      \<and> list_all (\<lambda>selector. \<not> page_IsVisible env selector) errorSelectors)"

subsection \<open>A concrete environment and concrete states\<close>

definition sampleURL :: string where
  "sampleURL = ''https://www.freepik.com/free-photo/red-fox_12345.htm''"

text \<open>Every call succeeds, the login ends in the ambiguous outcome, the page shows the
  download button, and a file named by a URL cannot be opened.\<close>

definition sampleEnv :: env where
  "sampleEnv =
     \<lparr>url_Parse = (\<lambda>u. if u = sampleURL then Some ''/free-photo/red-fox_12345.htm'' else None),
      filepath_Join = (\<lambda>dir name. dir @ ''/'' @ name),
      os_Getenv = (\<lambda>key. []),
      os_UserHomeDir = Some ''/root'',
      os_Stat_ok = (\<lambda>path. False),
      os_MkdirAll = (\<lambda>path. None),
      os_CreateTemp = Inr ''/tmp/freepik-1'',
      os_Open = (\<lambda>path. if path = sampleURL then Some ''no such file or directory'' else None),
      time_Now_date = ''2025-01-01'',
      playwright_Run = None,
      chromium_Launch = None,
      browser_NewContext = (\<lambda>opts. None),
      context_NewPage = None,
      context_StorageState = (\<lambda>path. None),
      page_AddInitScript = None,
      page_Goto = (\<lambda>u. None),
      page_Click = (\<lambda>selector. None),
      page_Fill = (\<lambda>selector v. None),
      page_IsVisible = (\<lambda>selector. selector = downloadButtonSelector),
      page_Check = (\<lambda>selector. None),
      page_URL_logged = ''https://www.freepik.com/'',
      page_URL_first = ''https://www.freepik.com/'',
      page_URL_second = ''https://www.freepik.com/'',
      page_Title = Inr ''Red fox'',
      page_ExpectDownload = Inr ''red-fox.jpg'',
      download_SaveAs = (\<lambda>path. None),
      config_LoadDefaultConfig = None,
      s3_PutObject = (\<lambda>bucket key. None),
      uploader_Upload = (\<lambda>bucket key. Inr key)\<rparr>"

text \<open>The state after a start without a storage-state file, and the same state logged in
  as \<open>a@b.com\<close>.\<close>

definition fresh :: world where
  "fresh = initial\<lparr>browserContext := Some (BrowserContext 0 freshOptions),
                   contexts := [BrowserContext 0 freshOptions]\<rparr>"

definition loggedIn :: world where
  "loggedIn = fresh\<lparr>isLoggedIn := True, currentUserEmail := ''a@b.com''\<rparr>"

text \<open>The same environment with a storage-state save that fails, and with clicks that
  time out.\<close>

definition saveFailsEnv :: env where
  "saveFailsEnv = sampleEnv\<lparr>context_StorageState := (\<lambda>path. Some ''permission denied'')\<rparr>"

definition clickFailsEnv :: env where
  "clickFailsEnv = sampleEnv\<lparr>page_Click := (\<lambda>selector. Some ''Timeout 10000ms exceeded'')\<rparr>"

text \<open>The same environment with a page that shows the anti-bot interstitial, and with a
  storage-state file on disk.\<close>

definition blockedEnv :: env where
  "blockedEnv = sampleEnv\<lparr>page_Title := Inr ''Access Denied''\<rparr>"

definition storedEnv :: env where
  "storedEnv = sampleEnv\<lparr>os_Stat_ok := (\<lambda>path. path = ''/root/freepik_storage_state.json'')\<rparr>"



definition sampleLogin :: "LoginRequest request" where
  "sampleLogin = \<lparr>httpMethod = ''POST'',
                   decoded = Some \<lparr>login_Email = ''new@b.com'', login_Password = ''secret''\<rparr>\<rparr>"

definition sampleDownload :: "DownloadRequest request" where
  "sampleDownload = \<lparr>httpMethod = ''POST'',
                      decoded = Some \<lparr>download_URL = sampleURL, download_Email = ''other@c.org''\<rparr>\<rparr>"

definition sampleDownload_tmp :: "DownloadRequest_tmp request" where
  "sampleDownload_tmp = \<lparr>httpMethod = ''POST'', decoded = Some \<lparr>download_tmp_URL = sampleURL\<rparr>\<rparr>"

section \<open>Concurrent runs\<close>

text \<open>
  Requests are served by concurrent tasks that share the mutex \<open>contextMux\<close>. A run of
  several tasks is a schedule: the calls of all tasks in the order in which they happen,
  each with the number of its task. The mutex is the reader/writer lock of Go's \<open>sync\<close>
  package, taken from its documentation: \<open>Lock\<close> returns only when the lock is held
  neither for writing nor for reading, \<open>RLock\<close> only when it is not held for writing,
  \<open>Unlock\<close> and \<open>RUnlock\<close> are run-time errors when the lock is not held in that mode.
  The state of the mutex is whether it is held for writing and the number of readers;
  \<open>mutexStep\<close> is \<open>None\<close> for a call that cannot be the next one to return.
\<close>

definition isLockEvent :: "event \<Rightarrow> bool" where
  "isLockEvent e = (e = Lock \<or> e = Unlock \<or> e = RLock \<or> e = RUnlock)"

text \<open>Where a task stands with respect to the lock after some of its calls: outside,
  between its \<open>Lock\<close> and \<open>Unlock\<close>, or between its \<open>RLock\<close> and \<open>RUnlock\<close>;
  \<open>None\<close> for calls that are not bracketed.\<close>

datatype mode = Outside | Writing | Reading

definition modeStep :: "mode \<Rightarrow> event \<Rightarrow> mode option" where
  "modeStep m e =
     (if e = Lock then (if m = Outside then Some Writing else None)
      else if e = Unlock then (if m = Writing then Some Outside else None)
      else if e = RLock then (if m = Outside then Some Reading else None)
      else if e = RUnlock then (if m = Reading then Some Outside else None)
      else Some m)"

fun modeRun :: "mode \<Rightarrow> event list \<Rightarrow> mode option" where
  "modeRun m [] = Some m"
| "modeRun m (e # es) = (case modeStep m e of None \<Rightarrow> None | Some m' \<Rightarrow> modeRun m' es)"

definition modeAfter :: "event list \<Rightarrow> mode option" where
  "modeAfter evs = modeRun Outside evs"

definition mutexStep :: "event \<Rightarrow> bool \<times> nat \<Rightarrow> (bool \<times> nat) option" where
  "mutexStep e s =
     (if e = Lock then (if \<not> fst s \<and> snd s = 0 then Some (True, 0) else None)
      else if e = Unlock then (if fst s then Some (False, snd s) else None)
      else if e = RLock then (if \<not> fst s then Some (False, Suc (snd s)) else None)
      else if e = RUnlock then (if snd s > 0 then Some (fst s, snd s - 1) else None)
      else Some s)"

fun runSchedule :: "(nat \<times> event) list \<Rightarrow> bool \<times> nat \<Rightarrow> (bool \<times> nat) option" where
  "runSchedule [] s = Some s"
| "runSchedule (p # rest) s =
     (case mutexStep (snd p) s of None \<Rightarrow> None | Some s' \<Rightarrow> runSchedule rest s')"

text \<open>The calls of one task in a schedule, and the number of tasks in a mode.\<close>

definition proj :: "nat \<Rightarrow> (nat \<times> event) list \<Rightarrow> event list" where
  "proj t sched = map snd (filter (\<lambda>p. fst p = t) sched)"

definition holders :: "mode \<Rightarrow> nat \<Rightarrow> (nat \<times> event) list \<Rightarrow> nat" where
  "holders m n sched = length (filter (\<lambda>t. modeAfter (proj t sched) = Some m) [0..<n])"

text \<open>The tasks of the claims about the lock: a login, the logged-in check of a download
  request, and a status request; and the calls each makes when run in a state.\<close>

datatype task = LoginTask env string string | DownloadCheck | StatusRead

fun taskEvents :: "task \<Rightarrow> world \<Rightarrow> event list" where
  "taskEvents (LoginTask env email password) w = newEvents (performLogin env email password) w"
| "taskEvents DownloadCheck w = newEvents readSession w"
| "taskEvents StatusRead w = newEvents (statusHandler ''GET'') w"

text \<open>An action that only adds calls to the trace, each of which satisfies a predicate.\<close>

definition emitsOnly :: "(event \<Rightarrow> bool) \<Rightarrow> 'a action \<Rightarrow> bool" where
  "emitsOnly P m = (\<forall>w. \<exists>evs. trace (snd (m w)) = trace w @ evs \<and> list_all P evs)"

text \<open>A schedule: a login whose click times out runs to its end, a status request follows,
  and a second login has created its page.\<close>

definition clickFailsLogin :: "event list" where
  "clickFailsLogin = [Lock, NewPage 0, AddInitScript, Goto ''https://www.freepik.com'', Sleep 2,
                      Click signInSelector, PageClose, Unlock]"

definition sampleTasks :: "task list" where
  "sampleTasks = [LoginTask clickFailsEnv ''new@b.com'' ''secret'',
                  LoginTask clickFailsEnv ''new@b.com'' ''secret'', StatusRead]"

definition sampleBefore :: "(nat \<times> event) list" where
  "sampleBefore = map (Pair 0) clickFailsLogin @ [(2, RLock), (2, RUnlock)]
                  @ [(1, Lock), (1, NewPage 0), (1, AddInitScript)]"

section \<open>Properties\<close>

lemmas action_defs = ret_def throw_def panic_def andThen_def emit_def atExit_def call_def
  callv_def attempt_def getContext_def setLoggedIn_def setCurrentUserEmail_def newPage_def
  isVisible_def

lemmas login_defs = performLogin_def classifyLogin_def saveStorageState_def
  stillOnLoginPage_def successSelectors_def errorSelectors_def

lemmas download_defs = processDownload_def runDownload_def uploadToR2_def currentContext_def
  checkNotBlocked_def checkDownloadButton_def

lemmas download_tmp_defs = processDownload_tmp_def runDownload_tmp_def uploadToR2_tmp_def
  currentContext_def checkNotBlocked_def checkDownloadButton_def

lemmas main_defs = main_def createNewContext_def newContext_def

subsection \<open>The download handler\<close>

text \<open>
  Claim C3. A POST /download whose body decodes and has a non-empty url (and, in the
  variant with the email field, a non-empty email) that arrives while the logged-in flag is
  false is answered with status 401 and success false; the only calls made are the
  read-lock and its release, no task is started and the session is left as it was.
\<close>

theorem downloadHandler_not_logged_in:
  "(httpMethod r = ''POST'' \<and> decoded r = Some req \<and> download_URL req \<noteq> []
      \<and> download_Email req \<noteq> [] \<and> \<not> isLoggedIn w \<longrightarrow>
      downloadHandler env r w =
        (Ok \<lparr>statusCode = 401,
             content = DownloadJSON \<lparr>Success = False, Message = [], File = [],
                         Error = ''Not logged in. Please login first.''\<rparr>\<rparr>,
         w\<lparr>trace := trace w @ [RLock, RUnlock]\<rparr>))
   \<and> (httpMethod r' = ''POST'' \<and> decoded r' = Some req' \<and> download_tmp_URL req' \<noteq> []
      \<and> \<not> isLoggedIn w \<longrightarrow>
      downloadHandler_tmp r' w =
        (Ok \<lparr>statusCode = 401,
             content = DownloadJSON \<lparr>Success = False, Message = [], File = [],
                         Error = ''Not logged in. Please login first.''\<rparr>\<rparr>,
         w\<lparr>trace := trace w @ [RLock, RUnlock]\<rparr>))"
  by (simp add: downloadHandler_def downloadHandler_tmp_def readSession_def errorResponse_def
      action_defs)

theorem downloadHandler_not_logged_in_witness:
  "downloadHandler sampleEnv sampleDownload fresh =
        (Ok \<lparr>statusCode = 401,
             content = DownloadJSON \<lparr>Success = False, Message = [], File = [],
                         Error = ''Not logged in. Please login first.''\<rparr>\<rparr>,
         fresh\<lparr>trace := [RLock, RUnlock]\<rparr>)
   \<and> downloadHandler_tmp sampleDownload_tmp fresh =
        (Ok \<lparr>statusCode = 401,
             content = DownloadJSON \<lparr>Success = False, Message = [], File = [],
                         Error = ''Not logged in. Please login first.''\<rparr>\<rparr>,
         fresh\<lparr>trace := [RLock, RUnlock]\<rparr>)"
  using downloadHandler_not_logged_in [of sampleDownload
      "\<lparr>download_URL = sampleURL, download_Email = ''other@c.org''\<rparr>" fresh sampleEnv
      sampleDownload_tmp "\<lparr>download_tmp_URL = sampleURL\<rparr>"]
  by (simp add: sampleDownload_def sampleDownload_tmp_def fresh_def initial_def sampleURL_def)

text \<open>
  Claim C9. In the variant with the email field, the email of a /download request is only
  checked to be non-empty: the location in the response and the key given to the task come
  from \<open>generateR2Path\<close> applied to \<open>currentUserEmail\<close>, and any other non-empty email in
  the request gives the same response and the same state.
\<close>

theorem downloadHandler_uses_currentUserEmail:
  assumes "httpMethod r = ''POST''" and "decoded r = Some req" and "download_URL req \<noteq> []"
    and "download_Email req \<noteq> []" and "isLoggedIn w"
    and "generateR2Path env (download_URL req) (currentUserEmail w) = Some (publicURL, r2ObjectKey)"
  shows "downloadHandler env r w =
           (Ok \<lparr>statusCode = 200,
                content = DownloadJSON \<lparr>Success = True, Message = ''Download started'',
                            File = publicURL, Error = []\<rparr>\<rparr>,
            w\<lparr>spawned := spawned w @ [[download_URL req, r2ObjectKey]],
              trace := trace w @ [RLock, RUnlock]\<rparr>)
         \<and> (\<forall>other. other \<noteq> [] \<longrightarrow>
               downloadHandler env (r\<lparr>decoded := Some (req\<lparr>download_Email := other\<rparr>)\<rparr>) w
               = downloadHandler env r w)"
  using assms
  by (simp add: downloadHandler_def readSession_def jsonResponse_def spawn_def action_defs)

lemma generateR2Path_sample:
  "generateR2Path sampleEnv sampleURL ''a@b.com'' =
     Some (''https://storage.stokbro.net/a%40b.com/red-fox.jpg'', ''a%40b.com/red-fox.jpg'')"
  by (simp add: generateR2Path_def sampleEnv_def sampleURL_def filepath_Base_def filepath_Ext_def
      stripID_def strings_Split_def getEnv_def strings_TrimRight_def shouldEscape_def upperhex_def
      Let_def)

theorem downloadHandler_uses_currentUserEmail_witness:
  "downloadHandler sampleEnv sampleDownload loggedIn =
     (Ok \<lparr>statusCode = 200,
          content = DownloadJSON \<lparr>Success = True, Message = ''Download started'',
                      File = ''https://storage.stokbro.net/a%40b.com/red-fox.jpg'', Error = []\<rparr>\<rparr>,
      loggedIn\<lparr>spawned := [[sampleURL, ''a%40b.com/red-fox.jpg'']], trace := [RLock, RUnlock]\<rparr>)
   \<and> downloadHandler sampleEnv
        (sampleDownload\<lparr>decoded := Some \<lparr>download_URL = sampleURL, download_Email = ''x@y.z''\<rparr>\<rparr>)
        loggedIn
      = downloadHandler sampleEnv sampleDownload loggedIn"
proof -
  have g: "generateR2Path sampleEnv
             (download_URL \<lparr>download_URL = sampleURL, download_Email = ''other@c.org''\<rparr>)
             (currentUserEmail loggedIn) =
           Some (''https://storage.stokbro.net/a%40b.com/red-fox.jpg'', ''a%40b.com/red-fox.jpg'')"
    using generateR2Path_sample by (simp add: loggedIn_def)
  have u: "download_URL \<lparr>download_URL = sampleURL, download_Email = ''other@c.org''\<rparr> \<noteq> []"
    by (simp add: sampleURL_def)
  show ?thesis
    using downloadHandler_uses_currentUserEmail [of sampleDownload
        "\<lparr>download_URL = sampleURL, download_Email = ''other@c.org''\<rparr>" loggedIn sampleEnv,
        OF _ _ u _ _ g]
    by (simp add: sampleDownload_def loggedIn_def fresh_def initial_def)
qed

subsection \<open>The login handler and the login sequence\<close>

text \<open>What a login run can change of the session: nothing but the logged-in flag, and that
  only when it returns without an error.\<close>

lemma performLogin_session:
  "performLogin env email password w = (r, w') \<Longrightarrow>
     browserContext w' = browserContext w \<and> contexts w' = contexts w
     \<and> currentUserEmail w' = currentUserEmail w \<and> spawned w' = spawned w
     \<and> (r \<noteq> Ok () \<longrightarrow> isLoggedIn w' = isLoggedIn w) \<and> (r = Ok () \<longrightarrow> isLoggedIn w')"
  apply (simp add: login_defs action_defs split: option.splits if_splits prod.splits result.splits)
  apply auto
  done

lemma performLogin_clickFails:
  "performLogin clickFailsEnv ''new@b.com'' ''secret''
     (loggedIn\<lparr>currentUserEmail := ''new@b.com'', trace := trace loggedIn @ [Lock, Unlock]\<rparr>) =
   (Err ''failed to click sign in button: Timeout 10000ms exceeded'',
    loggedIn\<lparr>currentUserEmail := ''new@b.com'',
      trace := [Lock, Unlock, Lock, NewPage 0, AddInitScript, Goto ''https://www.freepik.com'',
                Sleep 2, Click signInSelector, PageClose, Unlock]\<rparr>)"
  by (simp add: login_defs action_defs clickFailsEnv_def sampleEnv_def loggedIn_def fresh_def
      initial_def)

text \<open>
  Claim C4. When \<open>performLogin\<close> returns an error, the logged-in flag has its prior value,
  the context variable and the browser's contexts are the prior ones, and the /login
  response carries the error in its JSON body (\<open>success\<close> false, \<open>error\<close> the message
  after \<open>Login failed:\<close>).
\<close>

theorem performLogin_error_leaves_session:
  assumes "httpMethod r = ''POST''" and "decoded r = Some req"
    and "email = (if login_Email req = [] then ''mymymy@gmail.com'' else login_Email req)"
    and "password = (if login_Password req = [] then ''mypassword'' else login_Password req)"
    and "performLogin env email password
           (w\<lparr>currentUserEmail := email, trace := trace w @ [Lock, Unlock]\<rparr>) = (Err e, w')"
  shows "loginHandler env r w =
           (Ok \<lparr>statusCode = 200,
                content = LoginJSON \<lparr>login_Success = False, login_Message = [],
                            login_Error = ''Login failed: '' @ e\<rparr>\<rparr>, w')
         \<and> isLoggedIn w' = isLoggedIn w \<and> browserContext w' = browserContext w
         \<and> contexts w' = contexts w"
proof -
  from performLogin_session [OF assms(5)]
  have "isLoggedIn w' = isLoggedIn w \<and> browserContext w' = browserContext w \<and> contexts w' = contexts w"
    by simp
  moreover have "loginHandler env r w =
           (Ok \<lparr>statusCode = 200,
                content = LoginJSON \<lparr>login_Success = False, login_Message = [],
                            login_Error = ''Login failed: '' @ e\<rparr>\<rparr>, w')"
    using assms(1,2,5) unfolding assms(3,4)
    by (simp add: loginHandler_def jsonResponse_def andThen_def emit_def setCurrentUserEmail_def attempt_def ret_def Let_def)
  ultimately show ?thesis by simp
qed

theorem performLogin_error_leaves_session_witness:
  "loginHandler clickFailsEnv sampleLogin loggedIn =
     (Ok \<lparr>statusCode = 200,
          content = LoginJSON \<lparr>login_Success = False, login_Message = [],
            login_Error = ''Login failed: failed to click sign in button: Timeout 10000ms exceeded''\<rparr>\<rparr>,
      loggedIn\<lparr>currentUserEmail := ''new@b.com'',
        trace := [Lock, Unlock, Lock, NewPage 0, AddInitScript, Goto ''https://www.freepik.com'',
                  Sleep 2, Click signInSelector, PageClose, Unlock]\<rparr>)
   \<and> isLoggedIn loggedIn \<and> browserContext loggedIn = Some (BrowserContext 0 freshOptions)"
  using performLogin_error_leaves_session [of sampleLogin
      "\<lparr>login_Email = ''new@b.com'', login_Password = ''secret''\<rparr>" "''new@b.com''" "''secret''"
      clickFailsEnv loggedIn _ _, OF _ _ _ _ performLogin_clickFails]
  by (simp add: sampleLogin_def loggedIn_def fresh_def)

text \<open>
  Claim C10. The /login handler stores the email of the request (the default one for an
  empty field) in \<open>currentUserEmail\<close> before the login sequence starts: the state it
  leaves is the state \<open>performLogin\<close> leaves when started with the email already stored,
  and the stored email is still there at the end, whatever the login returns.
\<close>

theorem loginHandler_stores_email_first:
  assumes "httpMethod r = ''POST''" and "decoded r = Some req"
    and "email = (if login_Email req = [] then ''mymymy@gmail.com'' else login_Email req)"
    and "password = (if login_Password req = [] then ''mypassword'' else login_Password req)"
  shows "snd (loginHandler env r w) =
           snd (performLogin env email password
                  (w\<lparr>currentUserEmail := email, trace := trace w @ [Lock, Unlock]\<rparr>))
         \<and> currentUserEmail (snd (loginHandler env r w)) = email"
proof -
  let ?w0 = "w\<lparr>currentUserEmail := email, trace := trace w @ [Lock, Unlock]\<rparr>"
  obtain res w1 where run: "performLogin env email password ?w0 = (res, w1)"
    by (cases "performLogin env email password ?w0")
  have "snd (loginHandler env r w) = w1"
    using assms(1,2) run unfolding assms(3,4)
    by (cases res) (simp_all add: loginHandler_def jsonResponse_def andThen_def emit_def setCurrentUserEmail_def attempt_def ret_def Let_def split: sum.splits)
  moreover have "currentUserEmail w1 = email"
    using performLogin_session [OF run] by simp
  ultimately show ?thesis using run by simp
qed

theorem loginHandler_stores_email_first_witness:
  "currentUserEmail loggedIn = ''a@b.com''
   \<and> fst (performLogin clickFailsEnv ''new@b.com'' ''secret''
       (loggedIn\<lparr>currentUserEmail := ''new@b.com'', trace := trace loggedIn @ [Lock, Unlock]\<rparr>))
      = Err ''failed to click sign in button: Timeout 10000ms exceeded''
   \<and> currentUserEmail (snd (loginHandler clickFailsEnv sampleLogin loggedIn)) = ''new@b.com''"
  using loginHandler_stores_email_first [of sampleLogin
      "\<lparr>login_Email = ''new@b.com'', login_Password = ''secret''\<rparr>" "''new@b.com''" "''secret''"
      clickFailsEnv loggedIn] performLogin_clickFails
  by (simp add: sampleLogin_def loggedIn_def)

text \<open>
  Claim C5, as the code has it. When every step up to the classification succeeds and the
  outcome is ambiguous, the run goes on as a success: the storage state is saved to the
  fixed path, and the logged-in flag is set to true when that save succeeds. When the save
  fails, \<open>performLogin\<close> returns the error of the save and the flag has its prior value.
\<close>

theorem ambiguous_login_is_success:
  assumes "loginStepsSucceed env email password" and "ambiguousOutcome env"
    and "browserContext w = Some ctx"
  shows "StorageState (context_id ctx) (getStorageStatePath env)
           \<in> set (newEvents (performLogin env email password) w)
         \<and> (context_StorageState env (getStorageStatePath env) = None \<longrightarrow>
              fst (performLogin env email password w) = Ok ()
              \<and> isLoggedIn (snd (performLogin env email password w)))
         \<and> (\<forall>err. context_StorageState env (getStorageStatePath env) = Some err \<longrightarrow>
              fst (performLogin env email password w) = Err (''failed to save storage state: '' @ err)
              \<and> isLoggedIn (snd (performLogin env email password w)) = isLoggedIn w)"
  using assms
  by (cases "context_StorageState env (getStorageStatePath env)";
      cases "page_IsVisible env stayLoggedInSelector")
     (simp_all add: loginStepsSucceed_def ambiguousOutcome_def newEvents_def login_defs
      action_defs)

theorem ambiguous_login_is_success_witness:
  "loginStepsSucceed sampleEnv ''a@b.com'' ''secret'' \<and> ambiguousOutcome sampleEnv
   \<and> browserContext fresh = Some (BrowserContext 0 freshOptions)
   \<and> StorageState 0 ''/root/freepik_storage_state.json''
           \<in> set (newEvents (performLogin sampleEnv ''a@b.com'' ''secret'') fresh)
   \<and> fst (performLogin sampleEnv ''a@b.com'' ''secret'' fresh) = Ok ()
   \<and> isLoggedIn (snd (performLogin sampleEnv ''a@b.com'' ''secret'' fresh))"
proof -
  have h1: "loginStepsSucceed sampleEnv ''a@b.com'' ''secret''"
    by (simp add: loginStepsSucceed_def sampleEnv_def)
  have h2: "ambiguousOutcome sampleEnv"
    by (simp add: ambiguousOutcome_def sampleEnv_def successSelectors_def errorSelectors_def
        downloadButtonSelector_def)
  have h3: "browserContext fresh = Some (BrowserContext 0 freshOptions)"
    by (simp add: fresh_def)
  have p: "getStorageStatePath sampleEnv = ''/root/freepik_storage_state.json''"
    by (simp add: getStorageStatePath_def homeDirOrDot_def sampleEnv_def)
  have s: "context_StorageState sampleEnv ''/root/freepik_storage_state.json'' = None"
    by (simp add: sampleEnv_def)
  show ?thesis
    using ambiguous_login_is_success [OF h1 h2 h3] h1 h2 h3 s by (simp add: p)
qed

text \<open>
  Claim C5, as stated, fails: here every step succeeds and the outcome is ambiguous, yet the
  save of the storage state fails, the login returns that error and the flag stays false.
\<close>

theorem ambiguous_login_save_failure:
  "loginStepsSucceed saveFailsEnv ''a@b.com'' ''secret'' \<and> ambiguousOutcome saveFailsEnv
   \<and> fst (performLogin saveFailsEnv ''a@b.com'' ''secret'' fresh)
       = Err ''failed to save storage state: permission denied''
   \<and> \<not> isLoggedIn (snd (performLogin saveFailsEnv ''a@b.com'' ''secret'' fresh))"
  by (simp add: saveFailsEnv_def sampleEnv_def loginStepsSucceed_def ambiguousOutcome_def
      downloadButtonSelector_def login_defs getStorageStatePath_def homeDirOrDot_def fresh_def
      initial_def action_defs)

subsection \<open>Startup\<close>

text \<open>
  Claim C7. When \<open>main\<close> gets as far as serving requests, the browser holds exactly one
  context and the context variable refers to it. If the storage-state file exists and the
  context was created from it, the flag is true and the only calls made were the start of
  the engine, the launch, the \<open>Stat\<close> and that one \<open>NewContext\<close> (no login step);
  otherwise the context has the fixed user agent, the 1920x1080 viewport, the en-US locale,
  the America/New_York timezone and the Accept-Language header, and the flag is false.
\<close>

theorem main_startup:
  assumes "main env initial = (Ok (), w)"
  shows "(\<exists>c. contexts w = [c] \<and> browserContext w = Some c
           \<and> (if os_Stat_ok env (getStorageStatePath env)
                  \<and> browser_NewContext env (storageStateOptions (getStorageStatePath env)) = None
               then isLoggedIn w
                 \<and> context_opts c = storageStateOptions (getStorageStatePath env)
                 \<and> trace w = [PlaywrightRun, ChromiumLaunch, Stat (getStorageStatePath env),
                              NewContext (storageStateOptions (getStorageStatePath env))]
               else \<not> isLoggedIn w
                 \<and> context_opts c =
                     \<lparr>StorageStatePath = None,
                      UserAgent = Some ''Mozilla/5.0 (Windows NT 10.0; Win64; x64) AppleWebKit/537.36 (KHTML, like Gecko) Chrome/120.0.0.0 Safari/537.36'',
                      Viewport = Some (1920, 1080), Locale = Some ''en-US'',
                      TimezoneId = Some ''America/New_York'',
                      ExtraHttpHeaders = [(''Accept-Language'', ''en-US,en;q=0.9'')]\<rparr>))"
  using assms
  by (auto simp add: main_defs action_defs initial_def freshOptions_def Let_def
      split: option.splits if_splits)


theorem main_startup_witness:
  "main storedEnv initial =
     (Ok (), initial\<lparr>browserContext := Some (BrowserContext 0 (storageStateOptions ''/root/freepik_storage_state.json'')),
        isLoggedIn := True,
        contexts := [BrowserContext 0 (storageStateOptions ''/root/freepik_storage_state.json'')],
        trace := [PlaywrightRun, ChromiumLaunch, Stat ''/root/freepik_storage_state.json'',
                  NewContext (storageStateOptions ''/root/freepik_storage_state.json'')]\<rparr>)
   \<and> main sampleEnv initial =
     (Ok (), initial\<lparr>browserContext := Some (BrowserContext 0 freshOptions),
        contexts := [BrowserContext 0 freshOptions],
        trace := [PlaywrightRun, ChromiumLaunch, Stat ''/root/freepik_storage_state.json'',
                  NewContext freshOptions]\<rparr>)"
proof -
  have m1: "main storedEnv initial =
     (Ok (), initial\<lparr>browserContext := Some (BrowserContext 0 (storageStateOptions ''/root/freepik_storage_state.json'')),
        isLoggedIn := True,
        contexts := [BrowserContext 0 (storageStateOptions ''/root/freepik_storage_state.json'')],
        trace := [PlaywrightRun, ChromiumLaunch, Stat ''/root/freepik_storage_state.json'',
                  NewContext (storageStateOptions ''/root/freepik_storage_state.json'')]\<rparr>)"
    by (simp add: main_defs action_defs Let_def getStorageStatePath_def homeDirOrDot_def storedEnv_def
        sampleEnv_def initial_def)
  have m2: "main sampleEnv initial =
     (Ok (), initial\<lparr>browserContext := Some (BrowserContext 0 freshOptions),
        contexts := [BrowserContext 0 freshOptions],
        trace := [PlaywrightRun, ChromiumLaunch, Stat ''/root/freepik_storage_state.json'',
                  NewContext freshOptions]\<rparr>)"
    by (simp add: main_defs action_defs Let_def getStorageStatePath_def homeDirOrDot_def
        sampleEnv_def initial_def)
  show ?thesis
    using main_startup [OF m1] main_startup [OF m2] m1 m2 by simp
qed

subsection \<open>The download pipeline\<close>

text \<open>
  Claim C6. When the page title is \<open>Access Denied\<close> or \<open>Just a moment...\<close>, a download
  run that reads the title returns the blocked-by-anti-bot error; no run looks for the
  download button (there is no \<open>IsVisible\<close> call) and none uploads. This holds for both
  variants of the pipeline.
\<close>

theorem blocked_title_stops_download:
  assumes "page_Title env = Inr title"
    and "title = ''Access Denied'' \<or> title = ''Just a moment...''"
  shows "(PageTitle \<in> set (newEvents (runDownload env targetURL) w) \<longrightarrow>
            fst (runDownload env targetURL w) = Err ''page blocked by anti-bot protection'')
         \<and> (\<forall>selector. IsVisible selector \<notin> set (newEvents (processDownload env targetURL r2Key) w))
         \<and> (\<forall>bucket key. PutObject bucket key \<notin> set (newEvents (processDownload env targetURL r2Key) w))
         \<and> (PageTitle \<in> set (newEvents (runDownload_tmp env targetURL) w) \<longrightarrow>
            fst (runDownload_tmp env targetURL w) = Err ''page blocked by anti-bot protection'')
         \<and> (\<forall>selector. IsVisible selector \<notin> set (newEvents (processDownload_tmp env targetURL) w))
         \<and> (\<forall>bucket key. UploaderUpload bucket key \<notin> set (newEvents (processDownload_tmp env targetURL) w))"
proof -
  have a: "PageTitle \<in> set (newEvents (runDownload env targetURL) w) \<longrightarrow>
            fst (runDownload env targetURL w) = Err ''page blocked by anti-bot protection''"
    using assms
    by (auto simp add: download_defs action_defs newEvents_def Let_def split: option.splits)
  have b: "IsVisible selector \<notin> set (newEvents (processDownload env targetURL r2Key) w)" for selector
    using assms
    by (auto simp add: download_defs action_defs newEvents_def Let_def split: option.splits)
  have c: "PutObject bucket key \<notin> set (newEvents (processDownload env targetURL r2Key) w)" for bucket key
    using assms
    by (auto simp add: download_defs action_defs newEvents_def Let_def split: option.splits)
  have a': "PageTitle \<in> set (newEvents (runDownload_tmp env targetURL) w) \<longrightarrow>
            fst (runDownload_tmp env targetURL w) = Err ''page blocked by anti-bot protection''"
    using assms
    by (auto simp add: download_tmp_defs action_defs newEvents_def Let_def split: option.splits)
  have b': "IsVisible selector \<notin> set (newEvents (processDownload_tmp env targetURL) w)" for selector
    using assms
    by (auto simp add: download_tmp_defs action_defs newEvents_def Let_def split: option.splits)
  have c': "UploaderUpload bucket key \<notin> set (newEvents (processDownload_tmp env targetURL) w)" for bucket key
    using assms
    by (auto simp add: download_tmp_defs action_defs newEvents_def Let_def split: option.splits)
  from a b c a' b' c' show ?thesis by blast
qed

lemma runDownload_blocked:
  "runDownload blockedEnv sampleURL loggedIn =
     (Err ''page blocked by anti-bot protection'',
      loggedIn\<lparr>trace := [RLock, RUnlock, NewPage 0, AddInitScript,
                          MkdirAll ''/root/freepik_downloads'', Goto sampleURL, Sleep 3,
                          PageTitle, PageClose]\<rparr>)"
  by (simp add: download_defs action_defs blockedEnv_def sampleEnv_def loggedIn_def fresh_def
      initial_def homeDirOrDot_def Let_def)

theorem blocked_title_stops_download_witness:
  "page_Title blockedEnv = Inr ''Access Denied''
   \<and> PageTitle \<in> set (newEvents (runDownload blockedEnv sampleURL) loggedIn)
   \<and> fst (runDownload blockedEnv sampleURL loggedIn) = Err ''page blocked by anti-bot protection''
   \<and> IsVisible downloadButtonSelector
       \<notin> set (newEvents (processDownload blockedEnv sampleURL ''a%40b.com/red-fox.jpg'') loggedIn)
   \<and> PutObject [] ''a%40b.com/red-fox.jpg''
       \<notin> set (newEvents (processDownload blockedEnv sampleURL ''a%40b.com/red-fox.jpg'') loggedIn)"
proof -
  have t: "page_Title blockedEnv = Inr ''Access Denied''"
    by (simp add: blockedEnv_def)
  have e: "PageTitle \<in> set (newEvents (runDownload blockedEnv sampleURL) loggedIn)"
    by (simp add: newEvents_def runDownload_blocked) (simp add: loggedIn_def fresh_def initial_def)
  show ?thesis
    using blocked_title_stops_download [OF t, of sampleURL loggedIn "''a%40b.com/red-fox.jpg''"] t e
    by simp
qed

text \<open>
  Claim C1 does not hold for \<open>processDownload\<close> of the variant with the email field: the
  download is saved, the upload fails (it is given the URL as the local path, which cannot
  be opened), and the function returns without removing the saved file.
\<close>

theorem processDownload_leaks_staged_file:
  "fst (runDownload sampleEnv sampleURL loggedIn) = Ok ''/root/freepik_downloads/red-fox.jpg''
   \<and> newEvents (processDownload sampleEnv sampleURL ''a%40b.com/red-fox.jpg'') loggedIn =
       [RLock, RUnlock, NewPage 0, AddInitScript, MkdirAll ''/root/freepik_downloads'',
        Goto sampleURL, Sleep 3, PageTitle, IsVisible downloadButtonSelector,
        ExpectDownload downloadButtonSelector, SaveAs ''/root/freepik_downloads/red-fox.jpg'',
        PageClose, LoadDefaultConfig, Open sampleURL]
   \<and> count_list (newEvents (processDownload sampleEnv sampleURL ''a%40b.com/red-fox.jpg'') loggedIn)
        (Remove ''/root/freepik_downloads/red-fox.jpg'') = 0"
  by (simp add: download_defs action_defs newEvents_def sampleEnv_def loggedIn_def fresh_def
      initial_def homeDirOrDot_def getEnv_def sampleURL_def downloadButtonSelector_def Let_def)

text \<open>The variant with the temporary file does what the claim says: once the temporary
  file has been created, it is removed exactly once, whatever happens afterwards.\<close>

lemma runDownload_tmp_removes_once:
  assumes "os_CreateTemp env = Inr tmpPath"
    and "CreateTemp \<in> set (newEvents (runDownload_tmp env targetURL) w)"
  shows "count_list (newEvents (runDownload_tmp env targetURL) w) (Remove tmpPath) = 1"
  using assms
  apply (simp add: download_tmp_defs action_defs newEvents_def Let_def)
  apply (cases "browserContext w"; simp add: action_defs)
  apply (cases "context_NewPage env"; simp add: action_defs)
  apply (cases "page_AddInitScript env"; simp add: action_defs)
  apply (cases "page_Goto env targetURL"; simp add: action_defs)
  apply (cases "page_Title env"; simp add: action_defs)
  apply (cases "page_IsVisible env downloadButtonSelector"; simp add: action_defs split: if_splits)
  apply (cases "page_ExpectDownload env"; simp add: action_defs)
  apply (cases "download_SaveAs env tmpPath"; simp add: action_defs)
  apply (cases "os_Open env tmpPath"; simp add: action_defs)
  apply (simp add: action_defs split: sum.splits)
  done

subsection \<open>The object key\<close>



lemma afterLast_none:
  assumes "c \<notin> set s"
  shows "afterLast c s = s"
proof -
  have tw: "takeWhile (\<lambda>x. x \<noteq> c) (rev s) = rev s"
    by (rule takeWhile_eq_all_conv [THEN iffD2]) (use assms in auto)
  show ?thesis unfolding afterLast_def tw by simp
qed


















subsection \<open>The lock\<close>

text \<open>The calls of a login are \<open>Lock\<close>, calls that do not touch the lock, and
  \<open>Unlock\<close>, however the login ends.\<close>

lemma emitsOnly_ret: "emitsOnly P (ret x)"
  and emitsOnly_throw: "emitsOnly P (throw e)"
  and emitsOnly_panic: "emitsOnly P panic"
  and emitsOnly_getContext: "emitsOnly P getContext"
  and emitsOnly_setLoggedIn: "emitsOnly P (setLoggedIn b)"
  by (simp_all add: emitsOnly_def action_defs)

lemma emitsOnly_emit: "P ev \<Longrightarrow> emitsOnly P (emit ev)"
  by (simp add: emitsOnly_def emit_def)

lemma emitsOnly_andThen:
  assumes "emitsOnly P m" and "\<And>x. emitsOnly P (f x)"
  shows "emitsOnly P (andThen m f)"
  unfolding emitsOnly_def
proof
  fix w
  obtain r w1 where m: "m w = (r, w1)" by (cases "m w")
  from assms(1) obtain evs where e1: "trace w1 = trace w @ evs" "list_all P evs"
    unfolding emitsOnly_def using m by (metis snd_conv)
  show "\<exists>evs. trace (snd (andThen m f w)) = trace w @ evs \<and> list_all P evs"
  proof (cases r)
    case (Ok x)
    from assms(2) [of x] obtain evs' where e2: "trace (snd (f x w1)) = trace w1 @ evs'" "list_all P evs'"
      unfolding emitsOnly_def by blast
    have "trace (snd (andThen m f w)) = trace w @ (evs @ evs')"
      using m Ok e1 e2 by (simp add: andThen_def)
    moreover have "list_all P (evs @ evs')" using e1 e2 by simp
    ultimately show ?thesis by blast
  next
    case Panic
    then show ?thesis using m e1 by (auto simp add: andThen_def)
  next
    case (Err e)
    then show ?thesis using m e1 by (auto simp add: andThen_def)
  qed
qed

lemma emitsOnly_atExit:
  assumes "emitsOnly P m" and "P ev"
  shows "emitsOnly P (atExit ev m)"
  unfolding emitsOnly_def
proof
  fix w
  obtain r w1 where m: "m w = (r, w1)" by (cases "m w")
  from assms(1) obtain evs where e1: "trace w1 = trace w @ evs" "list_all P evs"
    unfolding emitsOnly_def using m by (metis snd_conv)
  have "trace (snd (atExit ev m w)) = trace w @ (evs @ [ev])"
    using m e1 by (simp add: atExit_def)
  moreover have "list_all P (evs @ [ev])" using e1 assms(2) by simp
  ultimately show "\<exists>evs. trace (snd (atExit ev m w)) = trace w @ evs \<and> list_all P evs"
    by blast
qed

lemma emitsOnly_if:
  "emitsOnly P m \<Longrightarrow> emitsOnly P n \<Longrightarrow> emitsOnly P (if b then m else n)"
  by simp

lemma emitsOnly_call: "P ev \<Longrightarrow> emitsOnly P (call ev outcome msg)"
  unfolding call_def
  by (rule emitsOnly_andThen) (simp_all add: emitsOnly_emit emitsOnly_ret emitsOnly_throw split: option.splits)

lemma emitsOnly_seqs_Nil: "emitsOnly P (seqs [])"
  by (simp add: emitsOnly_ret)

lemma emitsOnly_seqs_Cons:
  "emitsOnly P m \<Longrightarrow> emitsOnly P (seqs ms) \<Longrightarrow> emitsOnly P (seqs (m # ms))"
  by (simp add: emitsOnly_andThen)

lemma emitsOnly_newPage: "emitsOnly (\<lambda>e. \<not> isLockEvent e) (newPage env c msg)"
  by (cases c) (simp_all add: newPage_def emitsOnly_panic emitsOnly_call isLockEvent_def)

lemma emitsOnly_isVisible: "emitsOnly (\<lambda>e. \<not> isLockEvent e) (isVisible env selector)"
  unfolding isVisible_def
  by (rule emitsOnly_andThen) (simp_all add: emitsOnly_emit emitsOnly_ret isLockEvent_def)

lemma emitsOnly_anyVisible: "emitsOnly (\<lambda>e. \<not> isLockEvent e) (anyVisible env selectors)"
proof (induction selectors)
  case Nil
  then show ?case by (simp add: emitsOnly_ret)
next
  case (Cons s ss)
  show ?case
    unfolding anyVisible.simps
    by (rule emitsOnly_andThen [OF emitsOnly_isVisible]) (simp add: emitsOnly_ret Cons)
qed

lemma emitsOnly_stillOnLoginPage: "emitsOnly (\<lambda>e. \<not> isLockEvent e) (stillOnLoginPage env)"
  unfolding stillOnLoginPage_def
  by (intro emitsOnly_andThen emitsOnly_emit emitsOnly_if emitsOnly_ret)
     (simp_all add: isLockEvent_def)

lemma emitsOnly_classifyLogin: "emitsOnly (\<lambda>e. \<not> isLockEvent e) (classifyLogin env)"
  unfolding classifyLogin_def
  by (intro emitsOnly_andThen emitsOnly_anyVisible emitsOnly_if emitsOnly_ret emitsOnly_throw
      emitsOnly_stillOnLoginPage)

lemma emitsOnly_saveStorageState: "emitsOnly (\<lambda>e. \<not> isLockEvent e) (saveStorageState env)"
  unfolding saveStorageState_def
proof (rule emitsOnly_andThen [OF emitsOnly_getContext])
  fix c
  show "emitsOnly (\<lambda>e. \<not> isLockEvent e)
          (case c of None \<Rightarrow> panic
           | Some ctx \<Rightarrow> call (StorageState (context_id ctx) (getStorageStatePath env))
               (context_StorageState env (getStorageStatePath env)) ''failed to save storage state: '')"
    by (cases c) (simp_all add: emitsOnly_panic emitsOnly_call isLockEvent_def)
qed

lemma bracket_events:
  assumes "emitsOnly P m"
  shows "\<exists>body. newEvents (andThen (emit a) (\<lambda>_. atExit b m)) w = a # body @ [b] \<and> list_all P body"
proof -
  let ?w1 = "w\<lparr>trace := trace w @ [a]\<rparr>"
  from assms obtain evs where e: "trace (snd (m ?w1)) = trace ?w1 @ evs" "list_all P evs"
    unfolding emitsOnly_def by blast
  obtain r w2 where m: "m ?w1 = (r, w2)" by (cases "m ?w1")
  have "newEvents (andThen (emit a) (\<lambda>_. atExit b m)) w = a # evs @ [b]"
    using m e by (simp add: newEvents_def andThen_def emit_def atExit_def)
  then show ?thesis using e(2) by blast
qed

lemma performLogin_events:
  "\<exists>body. newEvents (performLogin env email password) w = Lock # body @ [Unlock]
          \<and> list_all (\<lambda>e. \<not> isLockEvent e) body"
  unfolding performLogin_def
  by (rule bracket_events)
     ((intro emitsOnly_andThen emitsOnly_getContext emitsOnly_newPage emitsOnly_atExit
       emitsOnly_seqs_Cons emitsOnly_seqs_Nil emitsOnly_call emitsOnly_emit emitsOnly_if
       emitsOnly_isVisible emitsOnly_classifyLogin emitsOnly_saveStorageState
       emitsOnly_setLoggedIn emitsOnly_ret); simp add: isLockEvent_def)+

lemma reader_events:
  "newEvents readSession w = [RLock, RUnlock]"
  "newEvents (statusHandler ''GET'') w = [RLock, RUnlock]"
  by (simp_all add: newEvents_def readSession_def statusHandler_def action_defs)

text \<open>In a schedule the mutex allows, the tasks between \<open>Lock\<close> and \<open>Unlock\<close> are as
  many as the mutex says (one or none), and those between \<open>RLock\<close> and \<open>RUnlock\<close> as
  many as its reader count.\<close>

lemma modeRun_append:
  "modeRun m (xs @ ys) = (case modeRun m xs of None \<Rightarrow> None | Some m' \<Rightarrow> modeRun m' ys)"
  by (induction xs arbitrary: m) (auto split: option.splits)

lemma runSchedule_append:
  "runSchedule (xs @ ys) s = (case runSchedule xs s of None \<Rightarrow> None | Some s' \<Rightarrow> runSchedule ys s')"
  by (induction xs arbitrary: s) (auto split: option.splits)

lemma proj_snoc:
  "proj t' (sched @ [(t, e)]) = (if t' = t then proj t' sched @ [e] else proj t' sched)"
  by (simp add: proj_def)

lemma count_change:
  assumes "t < n" and "\<And>t'. t' \<noteq> t \<Longrightarrow> P' t' = P t'"
  shows "length (filter P' [0..<n]) + (if P t then 1 else 0)
         = length (filter P [0..<n]) + (if P' t then 1 else 0)"
  using assms(1)
proof (induction n)
  case 0
  then show ?case by simp
next
  case (Suc n)
  show ?case
  proof (cases "t = n")
    case True
    have "filter P' [0..<n] = filter P [0..<n]"
      by (rule filter_cong) (use True assms(2) in auto)
    then show ?thesis using True by simp
  next
    case False
    then have "t < n" using Suc.prems by simp
    from Suc.IH [OF this] assms(2) [of n] False show ?thesis by auto
  qed
qed

lemma count_two:
  assumes "t < n" "t' < n" "t \<noteq> t'" "P t" "P t'"
  shows "length (filter P [0..<n]) \<ge> 2"
proof -
  have "{t, t'} \<subseteq> {x. x < n \<and> P x}" using assms by auto
  then have "card {t, t'} \<le> card {x. x < n \<and> P x}" by (intro card_mono) auto
  moreover have "length (filter P [0..<n]) = card {x. x < n \<and> P x}"
  proof -
    have "{i. i < n \<and> P ([0..<n] ! i)} = {x. x < n \<and> P x}" by auto
    then show ?thesis by (simp add: length_filter_conv_card)
  qed
  ultimately show ?thesis using assms(3) by simp
qed

lemma modeAfter_snoc:
  "modeAfter (evs @ [e]) = (case modeAfter evs of None \<Rightarrow> None | Some m \<Rightarrow> modeStep m e)"
  by (simp add: modeAfter_def modeRun_append split: option.splits)

lemma holders_snoc:
  assumes "t < n" and "modeAfter (proj t sched) = Some m0" and "modeStep m0 e = Some m1"
  shows "holders m n (sched @ [(t, e)]) + (if m0 = m then 1 else 0)
         = holders m n sched + (if m1 = m then 1 else 0)"
proof -
  let ?P = "\<lambda>t'. modeAfter (proj t' sched) = Some m"
  let ?P' = "\<lambda>t'. modeAfter (proj t' (sched @ [(t, e)])) = Some m"
  have same: "\<And>t'. t' \<noteq> t \<Longrightarrow> ?P' t' = ?P t'" by (simp add: proj_snoc)
  have p: "?P t = (m0 = m)" using assms(2) by simp
  have p': "?P' t = (m1 = m)" using assms(2,3) by (simp add: proj_snoc modeAfter_snoc)
  from count_change [of t n ?P' ?P, OF assms(1) same]
  show ?thesis unfolding holders_def p p' by simp
qed

lemma mutex_invariant:
  assumes "runSchedule sched (False, 0) = Some (w, r)"
    and "\<forall>p\<in>set sched. fst p < n"
    and "\<forall>t<n. modeAfter (proj t sched) \<noteq> None"
  shows "holders Writing n sched = (if w then 1 else 0) \<and> holders Reading n sched = r
         \<and> (w \<longrightarrow> r = 0)"
  using assms
proof (induction sched arbitrary: w r rule: rev_induct)
  case Nil
  then show ?case by (simp add: holders_def proj_def modeAfter_def)
next
  case (snoc p sched)
  obtain t e where p: "p = (t, e)" by (cases p)
  from snoc.prems(1) obtain w0 r0 where
    run0: "runSchedule sched (False, 0) = Some (w0, r0)" and
    step: "mutexStep e (w0, r0) = Some (w, r)"
    by (auto simp add: runSchedule_append p split: option.splits)
  have tn: "t < n" using snoc.prems(2) p by simp
  have wb: "\<forall>t'<n. modeAfter (proj t' sched) \<noteq> None"
  proof (intro allI impI)
    fix t' assume "t' < n"
    then have "modeAfter (proj t' (sched @ [p])) \<noteq> None" using snoc.prems(3) by simp
    then show "modeAfter (proj t' sched) \<noteq> None"
      by (auto simp add: p proj_snoc modeAfter_snoc split: if_splits option.splits)
  qed
  from snoc.IH [OF run0 _ wb] snoc.prems(2)
  have ih: "holders Writing n sched = (if w0 then 1 else 0)" "holders Reading n sched = r0"
    "w0 \<longrightarrow> r0 = 0" by simp_all
  from wb tn obtain m0 where m0: "modeAfter (proj t sched) = Some m0" by auto
  from snoc.prems(3) tn obtain m1 where m1: "modeStep m0 e = Some m1"
    using m0 by (auto simp add: p proj_snoc modeAfter_snoc)
  note hw = holders_snoc [OF tn m0 m1, of Writing]
  note hr = holders_snoc [OF tn m0 m1, of Reading]
  consider (lock) "e = Lock" | (unlock) "e = Unlock" | (rlock) "e = RLock"
    | (runlock) "e = RUnlock" | (other) "e \<noteq> Lock" "e \<noteq> Unlock" "e \<noteq> RLock" "e \<noteq> RUnlock"
    by blast
  then show ?case
  proof cases
    case lock
    with m1 have "m0 = Outside" "m1 = Writing" by (auto simp add: modeStep_def split: if_splits)
    moreover from lock step have "\<not> w0" "r0 = 0" "w" "r = 0"
      by (auto simp add: mutexStep_def split: if_splits)
    ultimately show ?thesis using hw hr ih by (simp add: p)
  next
    case unlock
    with m1 have "m0 = Writing" "m1 = Outside" by (auto simp add: modeStep_def split: if_splits)
    moreover from unlock step have "w0" "\<not> w" "r = r0"
      by (auto simp add: mutexStep_def split: if_splits)
    ultimately show ?thesis using hw hr ih by (simp add: p)
  next
    case rlock
    with m1 have "m0 = Outside" "m1 = Reading" by (auto simp add: modeStep_def split: if_splits)
    moreover from rlock step have "\<not> w0" "\<not> w" "r = Suc r0"
      by (auto simp add: mutexStep_def split: if_splits)
    ultimately show ?thesis using hw hr ih by (simp add: p)
  next
    case runlock
    with m1 have "m0 = Reading" "m1 = Outside" by (auto simp add: modeStep_def split: if_splits)
    moreover from runlock step have "r0 > 0" "w = w0" "r = r0 - 1"
      by (auto simp add: mutexStep_def split: if_splits)
    ultimately show ?thesis using hw hr ih by (auto simp add: p)
  next
    case other
    with m1 have "m1 = m0" by (simp add: modeStep_def)
    moreover from other step have "w = w0" "r = r0" by (simp_all add: mutexStep_def)
    ultimately show ?thesis using hw hr ih by (simp add: p)
  qed
qed

lemma writer_excludes:
  assumes "runSchedule sched (False, 0) \<noteq> None"
    and "\<forall>p\<in>set sched. fst p < n"
    and "\<forall>t<n. modeAfter (proj t sched) \<noteq> None"
    and "t < n" and "t' < n" and "t' \<noteq> t"
    and "modeAfter (proj t sched) = Some Writing"
  shows "modeAfter (proj t' sched) = Some Outside"
proof -
  from assms(1) obtain w r where run: "runSchedule sched (False, 0) = Some (w, r)" by auto
  note inv = mutex_invariant [OF run assms(2,3)]
  have "holders Writing n sched \<ge> 1"
    unfolding holders_def using assms(4,7)
    by (metis (mono_tags, lifting) One_nat_def Suc_leI atLeast0LessThan filter_empty_conv
        length_greater_0_conv lessThan_iff set_upt)
  with inv have w: "w" "holders Writing n sched = 1" "holders Reading n sched = 0"
    by (auto split: if_splits)
  from assms(3,5) obtain m where m: "modeAfter (proj t' sched) = Some m" by auto
  show ?thesis
  proof (cases m)
    case Outside
    with m show ?thesis by simp
  next
    case Writing
    with m have "holders Writing n sched \<ge> 2"
      unfolding holders_def using assms(4,5,6,7) by (intro count_two [of t n t']) auto
    with w show ?thesis by simp
  next
    case Reading
    with m have "filter (\<lambda>t. modeAfter (proj t sched) = Some Reading) [0..<n] \<noteq> []"
      using assms(5) by (auto simp add: filter_empty_conv)
    with w(3) show ?thesis by (simp add: holders_def)
  qed
qed

lemma modeRun_quiet:
  "list_all (\<lambda>e. \<not> isLockEvent e) evs \<Longrightarrow> modeRun m evs = Some m"
  by (induction evs) (auto simp add: modeStep_def isLockEvent_def)

lemma login_prefix_mode:
  assumes "list_all (\<lambda>e. \<not> isLockEvent e) body" and "prefix pre (Lock # body @ [Unlock])"
  shows "modeAfter pre = Some (if pre = [] \<or> pre = Lock # body @ [Unlock] then Outside else Writing)"
proof (cases pre)
  case Nil
  then show ?thesis by (simp add: modeAfter_def)
next
  case (Cons a rest)
  with assms(2) have a: "a = Lock" and r: "prefix rest (body @ [Unlock])" by simp_all
  from r consider (full) "rest = body @ [Unlock]" | (part) "prefix rest body"
    by (auto simp add: prefix_snoc)
  then show ?thesis
  proof cases
    case full
    then show ?thesis using assms(1) Cons a
      by (simp add: modeAfter_def modeStep_def modeRun_append modeRun_quiet)
  next
    case part
    then obtain zs where "body = rest @ zs" by (auto simp add: prefix_def)
    then have q: "list_all (\<lambda>e. \<not> isLockEvent e) rest" using assms(1) by simp
    have "rest \<noteq> body @ [Unlock]" using part by (auto simp add: prefix_def)
    then show ?thesis using Cons a q by (simp add: modeAfter_def modeStep_def modeRun_quiet)
  qed
qed

lemma reader_prefix_mode:
  assumes "prefix pre [RLock, RUnlock]"
  shows "modeAfter pre = Some (if pre = [] \<or> pre = [RLock, RUnlock] then Outside else Reading)"
proof -
  from assms have "pre = [] \<or> pre = [RLock] \<or> pre = [RLock, RUnlock]"
    by (cases pre) (auto simp add: prefix_Cons, (case_tac list; simp)?)
  then show ?thesis by (auto simp add: modeAfter_def modeStep_def)
qed

lemma task_prefix_mode:
  assumes "prefix pre (taskEvents task w)"
  shows "modeAfter pre \<noteq> None"
    and "modeAfter pre = Some Outside \<Longrightarrow> pre = [] \<or> pre = taskEvents task w"
proof -
  have "modeAfter pre \<noteq> None \<and> (modeAfter pre = Some Outside \<longrightarrow> pre = [] \<or> pre = taskEvents task w)"
  proof (cases task)
    case (LoginTask env email password)
    obtain body where b: "newEvents (performLogin env email password) w = Lock # body @ [Unlock]"
      "list_all (\<lambda>e. \<not> isLockEvent e) body"
      using performLogin_events by blast
    from login_prefix_mode [OF b(2), of pre] assms LoginTask b(1)
    show ?thesis by (auto split: if_splits)
  next
    case DownloadCheck
    with reader_prefix_mode [of pre] assms show ?thesis
      by (auto simp add: reader_events split: if_splits)
  next
    case StatusRead
    with reader_prefix_mode [of pre] assms show ?thesis
      by (auto simp add: reader_events split: if_splits)
  qed
  then show "modeAfter pre \<noteq> None"
    and "modeAfter pre = Some Outside \<Longrightarrow> pre = [] \<or> pre = taskEvents task w" by simp_all
qed

lemma proj_append: "proj t (xs @ ys) = proj t xs @ proj t ys"
  by (simp add: proj_def)

text \<open>
  Claim C8. Every call of a login after its \<open>Lock\<close>, from the creation of the page to
  the \<open>Unlock\<close>, happens while it holds the lock for writing. So in every schedule the
  mutex allows, of any number of logins, logged-in checks and status requests, when a login
  makes such a call each other task has either made no call yet or made all of its calls:
  no second login and no lock-protected read is under way.
\<close>

theorem logins_are_serialised:
  assumes "runSchedule sched (False, 0) \<noteq> None"
    and "\<forall>p\<in>set sched. fst p < length tasks"
    and "\<forall>u<length tasks. prefix (proj u sched) (taskEvents (tasks ! u) (ws u))"
    and "sched = pre @ (t, e) # post"
    and "t < length tasks" and "tasks ! t = LoginTask env email password" and "e \<noteq> Lock"
    and "t' < length tasks" and "t' \<noteq> t"
  shows "(\<exists>body. newEvents (performLogin env email password) (ws t) = Lock # body @ [Unlock]
            \<and> list_all (\<lambda>e. \<not> isLockEvent e) body)
         \<and> (proj t' pre = [] \<or> proj t' pre = taskEvents (tasks ! t') (ws t'))"
proof -
  obtain body where b: "newEvents (performLogin env email password) (ws t) = Lock # body @ [Unlock]"
    "list_all (\<lambda>e. \<not> isLockEvent e) body"
    using performLogin_events by blast
  have run: "runSchedule pre (False, 0) \<noteq> None"
    using assms(1) by (auto simp add: assms(4) runSchedule_append split: option.splits)
  have ids: "\<forall>p\<in>set pre. fst p < length tasks" using assms(2) by (simp add: assms(4))
  have pre: "prefix (proj u pre) (taskEvents (tasks ! u) (ws u))" if "u < length tasks" for u
  proof -
    have "prefix (proj u pre) (proj u sched)" by (simp add: assms(4) proj_append)
    with assms(3) that show ?thesis using prefix_order.order_trans by blast
  qed
  then have wb: "\<forall>u<length tasks. modeAfter (proj u pre) \<noteq> None"
    using task_prefix_mode(1) by blast
  have "prefix (proj t pre @ [e]) (proj t sched)"
    by (simp add: assms(4) proj_append proj_def)
  with assms(3,5,6) b(1) have pe: "prefix (proj t pre @ [e]) (Lock # body @ [Unlock])"
    using prefix_order.order_trans by fastforce
  then have p: "prefix (proj t pre) (Lock # body @ [Unlock])"
    using append_prefixD by blast
  have ne: "proj t pre \<noteq> []" using pe assms(7) by auto
  have nf: "proj t pre \<noteq> Lock # body @ [Unlock]"
    using pe by (auto simp add: prefix_def)
  from login_prefix_mode [OF b(2) p] ne nf
  have "modeAfter (proj t pre) = Some Writing" by simp
  from writer_excludes [OF run ids wb assms(5,8,9) this]
  have "modeAfter (proj t' pre) = Some Outside" .
  from task_prefix_mode(2) [OF pre [OF assms(8)] this] b show ?thesis by blast
qed

lemma clickFailsLogin_events:
  "newEvents (performLogin clickFailsEnv ''new@b.com'' ''secret'') fresh = clickFailsLogin"
  by (simp add: newEvents_def login_defs action_defs clickFailsEnv_def sampleEnv_def fresh_def
      initial_def clickFailsLogin_def)

theorem logins_are_serialised_witness:
  "runSchedule (sampleBefore @ [(1, Goto ''https://www.freepik.com'')]) (False, 0) \<noteq> None
   \<and> proj 1 (sampleBefore @ [(1, Goto ''https://www.freepik.com'')]) = take 4 clickFailsLogin
   \<and> proj 0 sampleBefore = taskEvents (sampleTasks ! 0) fresh
   \<and> proj 2 sampleBefore = taskEvents (sampleTasks ! 2) fresh"
proof -
  let ?sched = "sampleBefore @ [(1, Goto ''https://www.freepik.com'')]"
  have te: "taskEvents (sampleTasks ! 0) fresh = clickFailsLogin"
    "taskEvents (sampleTasks ! 1) fresh = clickFailsLogin"
    "taskEvents (sampleTasks ! 2) fresh = [RLock, RUnlock]"
    by (simp_all add: sampleTasks_def clickFailsLogin_events reader_events)
  have pr: "proj 0 ?sched = clickFailsLogin" "proj 1 ?sched = take 4 clickFailsLogin"
    "proj 2 ?sched = [RLock, RUnlock]"
    "proj 0 sampleBefore = clickFailsLogin" "proj 2 sampleBefore = [RLock, RUnlock]"
    by (simp_all add: proj_def sampleBefore_def clickFailsLogin_def)
  have h1: "runSchedule ?sched (False, 0) \<noteq> None"
    by (simp add: sampleBefore_def clickFailsLogin_def mutexStep_def)
  have h2: "\<forall>p\<in>set ?sched. fst p < length sampleTasks"
    by (simp add: sampleBefore_def clickFailsLogin_def sampleTasks_def)
  have h3: "\<forall>u<length sampleTasks. prefix (proj u ?sched) (taskEvents (sampleTasks ! u) ((\<lambda>_. fresh) u))"
  proof (intro allI impI)
    fix u assume "u < length sampleTasks"
    then have "u = 0 \<or> u = 1 \<or> u = 2" by (auto simp add: sampleTasks_def)
    then show "prefix (proj u ?sched) (taskEvents (sampleTasks ! u) ((\<lambda>_. fresh) u))"
      using te pr by (auto simp add: clickFailsLogin_def)
  qed
  have h4: "?sched = sampleBefore @ (1, Goto ''https://www.freepik.com'') # []" by simp
  have h6: "sampleTasks ! 1 = LoginTask clickFailsEnv ''new@b.com'' ''secret''"
    by (simp add: sampleTasks_def)
  have l: "1 < length sampleTasks" "0 < length sampleTasks" "2 < length sampleTasks"
    by (simp_all add: sampleTasks_def)
  have c0: "proj 0 sampleBefore = [] \<or> proj 0 sampleBefore = taskEvents (sampleTasks ! 0) fresh"
    using logins_are_serialised [OF h1 h2 h3 h4 l(1) h6 _ l(2)] by simp
  have c2: "proj 2 sampleBefore = [] \<or> proj 2 sampleBefore = taskEvents (sampleTasks ! 2) fresh"
    using logins_are_serialised [OF h1 h2 h3 h4 l(1) h6 _ l(3)] by simp
  show ?thesis using h1 c0 c2 pr by (simp add: clickFailsLogin_def)
qed


end
